theory Spec2Isabelle
  imports Complex_Main
begin

section \<open>Number model, Python errors and numpy helpers\<close>

text \<open>
  The repository computes with numpy double-precision floats. This development idealises
  them as the real numbers: every formula is read over \<^typ>\<open>real\<close>, so rounding is
  outside the model. numpy does not raise on a float division by zero (it returns
  \<open>inf\<close> or \<open>nan\<close> and prints a warning); the lemma
  \<open>written_entries_have_nonzero_denominators\<close> shows for dm/ds and dm/dt that no entry of
  a returned matrix is computed with a zero denominator, so the value HOL gives to
  \<open>x / 0\<close> is never observed there.

  Python exceptions are values: a function that can raise returns \<open>py_error + 'a\<close>,
  with \<open>Inl\<close> for the exception.
\<close>

datatype py_error = IndexError | KeyError | ValueError | UnboundLocalError | OverflowError

type_synonym matrix = "real list list"

text \<open>Integer indexing \<open>xs[k]\<close>: a negative index counts from the end, anything
  out of range raises \<open>IndexError\<close>.\<close>

definition getitem :: "'a list \<Rightarrow> int \<Rightarrow> py_error + 'a" where
  "getitem xs k =
     (let n = int (length xs); j = (if k < 0 then k + n else k)
      in if 0 \<le> j \<and> j < n then Inr (xs ! nat j) else Inl IndexError)"

text \<open>The assignment \<open>mat[r, c] = v\<close> on a two-dimensional array (indices are never
  negative where the code uses it).\<close>

definition setitem2 :: "matrix \<Rightarrow> nat \<Rightarrow> nat \<Rightarrow> real \<Rightarrow> py_error + matrix" where
  "setitem2 mat r c v =
     (if r < length mat \<and> c < length (mat ! r)
      then Inr (mat[r := (mat ! r)[c := v]]) else Inl IndexError)"

text \<open>A matrix is the list of its rows; \<open>mat_shape mat R C\<close> says that it has
  \<open>R\<close> rows of \<open>C\<close> entries each.\<close>

definition mat_shape :: "matrix \<Rightarrow> nat \<Rightarrow> nat \<Rightarrow> bool" where
  "mat_shape mat R C = (length mat = R \<and> list_all (\<lambda>row. length row = C) mat)"

text \<open>\<open>np.zeros((r, c))\<close> as a list of \<open>r\<close> rows; a negative dimension raises
  \<open>ValueError\<close>.\<close>

definition np_zeros :: "nat \<Rightarrow> int \<Rightarrow> py_error + matrix" where
  "np_zeros r c = (if c < 0 then Inl ValueError else Inr (replicate r (replicate (nat c) 0)))"

text \<open>\<open>np.where(cond)\<close> over the card depths: the indices whose depth satisfies the
  condition, in increasing order.\<close>

definition np_where :: "(real \<Rightarrow> bool) \<Rightarrow> real list \<Rightarrow> nat list" where
  "np_where cond depth = filter (\<lambda>k. cond (depth ! k)) [0..<length depth]"

text \<open>A \<open>for\<close> loop whose body may raise: the first exception ends the loop.\<close>

fun for_each :: "'a list \<Rightarrow> ('a \<Rightarrow> 's \<Rightarrow> py_error + 's) \<Rightarrow> 's \<Rightarrow> py_error + 's" where
  "for_each [] body s = Inr s"
| "for_each (x # xs) body s =
     (case body x s of Inl e \<Rightarrow> Inl e | Inr s' \<Rightarrow> for_each xs body s')"

section \<open>The inversion model\<close>

text \<open>\<open>define_models.InversionModel\<close>: \<open>vsv\<close> and \<open>thickness\<close> are
  \<open>(n_layers, 1)\<close> arrays, read here as lists; \<open>boundary_inds\<close> holds indices into
  them.\<close>

record InversionModel =
  vsv :: "real list"
  thickness :: "real list"
  boundary_inds :: "nat list"

text \<open>\<open>np.sum(model.thickness[:k])\<close>; a slice never raises, it stops at the end of the
  array.\<close>

definition sum_thickness :: "InversionModel \<Rightarrow> nat \<Rightarrow> real" where
  "sum_thickness model k = sum_list (take k (thickness model))"

section \<open>dm/ds: sensitivity of the card to the velocity nodes\<close>

definition convert_kernels_d_shallowerm_by_d_s ::
    "InversionModel \<Rightarrow> nat \<Rightarrow> real list \<Rightarrow> matrix \<Rightarrow> py_error + matrix" where
  "convert_kernels_d_shallowerm_by_d_s model i depth dm_ds_mat =
     (let y_i_minus_1 = sum_thickness model i;
          y_i = sum_thickness model (i + 1);
          d_inds = np_where (\<lambda>z. y_i_minus_1 < z \<and> z \<le> y_i) depth
      in for_each d_inds
           (\<lambda>i_d mat. case getitem (thickness model) (int i) of
                Inl e \<Rightarrow> Inl e
              | Inr th \<Rightarrow> setitem2 mat i_d i ((depth ! i_d - y_i_minus_1) / th))
           dm_ds_mat)"

definition convert_kernels_d_deeperm_by_d_s ::
    "InversionModel \<Rightarrow> nat \<Rightarrow> real list \<Rightarrow> matrix \<Rightarrow> py_error + matrix" where
  "convert_kernels_d_deeperm_by_d_s model i depth dm_ds_mat =
     (let y_i = sum_thickness model (i + 1);
          y_i_plus_1 = sum_thickness model (i + 2);
          d_inds = np_where (\<lambda>z. y_i \<le> z \<and> z < y_i_plus_1) depth
      in for_each d_inds
           (\<lambda>i_d mat. case getitem (thickness model) (int i + 1) of
                Inl e \<Rightarrow> Inl e
              | Inr th \<Rightarrow> setitem2 mat i_d i (1 - (depth ! i_d - y_i) / th))
           dm_ds_mat)"

definition calculate_dm_ds :: "InversionModel \<Rightarrow> real list \<Rightarrow> py_error + matrix" where
  "calculate_dm_ds model depth =
     (let n_layers = int (length (vsv model)) - 1
      in case np_zeros (length depth) n_layers of
           Inl e \<Rightarrow> Inl e
         | Inr zeros \<Rightarrow>
             (case convert_kernels_d_deeperm_by_d_s model 0 depth zeros of
                Inl e \<Rightarrow> Inl e
              | Inr first \<Rightarrow>
                  for_each [1..<nat n_layers]
                    (\<lambda>i mat. case convert_kernels_d_shallowerm_by_d_s model i depth mat of
                         Inl e \<Rightarrow> Inl e
                       | Inr mat' \<Rightarrow> convert_kernels_d_deeperm_by_d_s model i depth mat')
                    first))"

section \<open>dm/dt: sensitivity of the card to the thickness above each boundary\<close>

definition convert_kernels_d_shallowerm_by_d_t ::
    "InversionModel \<Rightarrow> nat \<Rightarrow> real list \<Rightarrow> matrix \<Rightarrow> py_error + matrix" where
  "convert_kernels_d_shallowerm_by_d_t model i depth dm_dt_mat =
     (case getitem (boundary_inds model) (int i) of
        Inl e \<Rightarrow> Inl e
      | Inr ib \<Rightarrow>
     (case getitem (thickness model) (int ib) of
        Inl e \<Rightarrow> Inl e
      | Inr t_i \<Rightarrow>
          (let y_ib_minus_1 = sum_thickness model ib;
               y_ib = sum_thickness model (ib + 1);
               d_inds = np_where (\<lambda>z. y_ib_minus_1 < z \<and> z < y_ib) depth
           in for_each d_inds
                (\<lambda>i_d mat. case getitem (vsv model) (int ib) of
                     Inl e \<Rightarrow> Inl e
                   | Inr s_ib \<Rightarrow>
                  (case getitem (vsv model) (int ib - 1) of
                     Inl e \<Rightarrow> Inl e
                   | Inr s_ib_minus_1 \<Rightarrow>
                       setitem2 mat i_d i
                         (- (((s_ib - s_ib_minus_1) * (depth ! i_d - y_ib_minus_1))
                             / (t_i ^ 2)))))
                dm_dt_mat)))"

text \<open>Inside the boundary layer the right-hand side is one scalar, computed before the
  rows are selected: its two reads of \<open>vsv\<close> can raise even when no row is selected,
  and its division by \<open>w_i\<close> is a numpy division (no exception when \<open>w_i = 0\<close>).\<close>

definition convert_kernels_d_withinboundarym_by_d_t ::
    "InversionModel \<Rightarrow> nat \<Rightarrow> real list \<Rightarrow> matrix \<Rightarrow> py_error + matrix" where
  "convert_kernels_d_withinboundarym_by_d_t model i depth dm_dt_mat =
     (case getitem (boundary_inds model) (int i) of
        Inl e \<Rightarrow> Inl e
      | Inr ib \<Rightarrow>
     (case getitem (thickness model) (int ib + 1) of
        Inl e \<Rightarrow> Inl e
      | Inr w_i \<Rightarrow>
          (let y_ib = sum_thickness model (ib + 1);
               y_ib_plus_1 = sum_thickness model (ib + 2);
               d_inds = np_where (\<lambda>z. y_ib \<le> z \<and> z < y_ib_plus_1) depth
           in case getitem (vsv model) (int ib + 1) of
                Inl e \<Rightarrow> Inl e
              | Inr s_ib_plus_1 \<Rightarrow>
             (case getitem (vsv model) (int ib) of
                Inl e \<Rightarrow> Inl e
              | Inr s_ib \<Rightarrow>
                  for_each d_inds
                    (\<lambda>i_d mat. setitem2 mat i_d i (- ((s_ib_plus_1 - s_ib) / w_i)))
                    dm_dt_mat))))"

definition convert_kernels_d_deeperm_by_d_t ::
    "InversionModel \<Rightarrow> nat \<Rightarrow> real list \<Rightarrow> matrix \<Rightarrow> py_error + matrix" where
  "convert_kernels_d_deeperm_by_d_t model i depth dm_dt_mat =
     (case getitem (boundary_inds model) (int i) of
        Inl e \<Rightarrow> Inl e
      | Inr ib \<Rightarrow>
     (case getitem (thickness model) (int ib) of
        Inl e \<Rightarrow> Inl e
      | Inr t_i \<Rightarrow>
     (case getitem (thickness model) (int ib + 1) of
        Inl e \<Rightarrow> Inl e
      | Inr w_i \<Rightarrow>
          (let y_ib_minus_1 = sum_thickness model ib;
               y_ib_plus_1 = sum_thickness model (ib + 2);
               y_ib_plus_2 = sum_thickness model (ib + 3);
               d_inds = np_where (\<lambda>z. y_ib_plus_1 \<le> z \<and> z < y_ib_plus_2) depth
           in for_each d_inds
                (\<lambda>i_d mat. case getitem (vsv model) (int ib + 2) of
                     Inl e \<Rightarrow> Inl e
                   | Inr s_ib_plus_2 \<Rightarrow>
                  (case getitem (vsv model) (int ib + 1) of
                     Inl e \<Rightarrow> Inl e
                   | Inr s_ib_plus_1 \<Rightarrow>
                       setitem2 mat i_d i
                         ((s_ib_plus_2 - s_ib_plus_1) * (depth ! i_d - y_ib_plus_2)
                          / ((t_i - (y_ib_plus_2 - y_ib_minus_1 - w_i)) ^ 2))))
                dm_dt_mat))))"

definition calculate_dm_dt :: "InversionModel \<Rightarrow> real list \<Rightarrow> py_error + matrix" where
  "calculate_dm_dt model depth =
     (case np_zeros (length depth) (int (length (boundary_inds model))) of
        Inl e \<Rightarrow> Inl e
      | Inr zeros \<Rightarrow>
          for_each [0..<length (boundary_inds model)]
            (\<lambda>i mat. case convert_kernels_d_shallowerm_by_d_t model i depth mat of
                 Inl e \<Rightarrow> Inl e
               | Inr mat1 \<Rightarrow>
              (case convert_kernels_d_withinboundarym_by_d_t model i depth mat1 of
                 Inl e \<Rightarrow> Inl e
               | Inr mat2 \<Rightarrow> convert_kernels_d_deeperm_by_d_t model i depth mat2))
            zeros)"

section \<open>The setup model and the kernel table\<close>

text \<open>\<open>define_models.SetupModel\<close>, with the fields the modelled functions read. The
  run identifier, the Moho tuple and the path of the reference card only name files or
  steer the card writer and are left out; the values interpolated from the reference card
  are parameters of \<open>setup_starting_model\<close> below.\<close>

record SetupModel =
  boundary_depths :: "real list"
  boundary_depth_uncertainty :: "real list"
  boundary_widths :: "real list"
  boundary_vsv :: "real list"
  depth_limits :: "real list"
  min_layer_thickness :: real
  vsv_vsh_ratio :: real
  vpv_vsv_ratio :: real
  vpv_vph_ratio :: real

text \<open>One row of the kernel \<open>DataFrame\<close>. Its columns are \<open>period\<close>, \<open>type\<close>,
  \<open>z\<close>, \<open>vsv\<close>, \<open>vsh\<close>, \<open>vpv\<close>, \<open>vph\<close> and \<open>eta\<close>; the fields carry the prefix
  \<open>k_\<close> because \<open>vsv\<close> already names a field of the inversion model.\<close>

record kernel_row =
  k_period :: real
  k_type :: string
  k_z :: real
  k_vsv :: real
  k_vsh :: real
  k_vpv :: real
  k_vph :: real
  k_eta :: real

text \<open>A numpy array of one or of two dimensions. \<open>np.hstack\<close> of one-dimensional
  columns is one-dimensional; \<open>np.vstack\<close> makes two dimensions of it.\<close>

datatype ndarray = Arr1 "real list" | Arr2 matrix

text \<open>\<open>np.unique\<close>: the distinct values, sorted. \<open>Series.unique()\<close>: the distinct
  values in the order of their first appearance.\<close>

definition np_unique :: "real list \<Rightarrow> real list" where
  "np_unique xs = sort (remdups xs)"

definition pd_unique :: "real list \<Rightarrow> real list" where
  "pd_unique xs = rev (remdups (rev xs))"

text \<open>\<open>np.vstack((G, row))\<close> for a one-dimensional \<open>row\<close>: the lengths must agree.\<close>

fun np_vstack :: "ndarray \<Rightarrow> real list \<Rightarrow> py_error + ndarray" where
  "np_vstack (Arr1 v) row =
     (if length v = length row then Inr (Arr2 [v, row]) else Inl ValueError)"
| "np_vstack (Arr2 m) row =
     (if list_all (\<lambda>r. length r = length row) m then Inr (Arr2 (m @ [row])) else Inl ValueError)"

text \<open>\<open>np.hstack((a, b))\<close> of two matrices with the same number of rows.\<close>

definition np_hstack :: "matrix \<Rightarrow> matrix \<Rightarrow> py_error + matrix" where
  "np_hstack a b = (if length a = length b then Inr (map2 (@) a b) else Inl ValueError)"

text \<open>\<open>np.matmul(G, B)\<close> for a two-dimensional \<open>B\<close>. A one-dimensional \<open>G\<close> is
  treated as a row and the result is again one-dimensional. The inner dimensions must
  agree. (The row list of an array without rows does not record its number of columns;
  here \<open>B\<close> always has rows, see \<open>build_partial_derivatives_matrix\<close>.)\<close>

definition dot_column :: "real list \<Rightarrow> matrix \<Rightarrow> nat \<Rightarrow> real" where
  "dot_column row b j = sum_list (map2 (*) row (map (\<lambda>br. br ! j) b))"

definition ncols :: "matrix \<Rightarrow> nat" where
  "ncols b = (case b of [] \<Rightarrow> 0 | br # _ \<Rightarrow> length br)"

fun np_matmul :: "ndarray \<Rightarrow> matrix \<Rightarrow> py_error + ndarray" where
  "np_matmul (Arr1 v) b =
     (if length v = length b then Inr (Arr1 (map (dot_column v b) [0..<ncols b]))
      else Inl ValueError)"
| "np_matmul (Arr2 m) b =
     (if list_all (\<lambda>r. length r = length b) m
      then Inr (Arr2 (map (\<lambda>r. map (dot_column r b) [0..<ncols b]) m))
      else Inl ValueError)"

section \<open>Assembling the Jacobian\<close>

text \<open>The wave type is read from the first row of the table only. When it is neither
  \<open>Rayleigh\<close> nor \<open>Love\<close>, no branch binds \<open>vsh\<close> and the final \<open>np.hstack\<close>
  raises \<open>UnboundLocalError\<close>. A period with no row selects empty columns.\<close>

definition hstack_frechet_kernels :: "kernel_row list \<Rightarrow> real \<Rightarrow> py_error + real list" where
  "hstack_frechet_kernels kernels period =
     (let sel = filter (\<lambda>k. k_period k = period) kernels;
          vsv = map k_vsv sel;
          zeros = map (\<lambda>_. 0) vsv
      in case kernels of
           [] \<Rightarrow> Inl IndexError
         | k0 # _ \<Rightarrow>
             if k_type k0 = ''Rayleigh''
             then Inr (vsv @ zeros @ map k_vpv sel @ map k_vph sel @ map k_eta sel)
             else if k_type k0 = ''Love''
             then Inr (vsv @ map k_vsh sel @ zeros @ zeros @ zeros)
             else Inl UnboundLocalError)"

definition build_MINEOS_G_matrix :: "kernel_row list \<Rightarrow> py_error + ndarray" where
  "build_MINEOS_G_matrix kernels =
     (let periods = np_unique (map k_period kernels)
      in case getitem periods 0 of
           Inl e \<Rightarrow> Inl e
         | Inr p0 \<Rightarrow>
        (case hstack_frechet_kernels kernels p0 of
           Inl e \<Rightarrow> Inl e
         | Inr row0 \<Rightarrow>
             for_each [1..<length periods]
               (\<lambda>i_p G. case hstack_frechet_kernels kernels (periods ! i_p) of
                    Inl e \<Rightarrow> Inl e
                  | Inr row \<Rightarrow> np_vstack G row)
               (Arr1 row0)))"

definition convert_to_model_kernels :: "real list \<Rightarrow> InversionModel \<Rightarrow> py_error + matrix" where
  "convert_to_model_kernels depth model =
     (case calculate_dm_ds model depth of
        Inl e \<Rightarrow> Inl e
      | Inr dm_ds_mat \<Rightarrow>
     (case calculate_dm_dt model depth of
        Inl e \<Rightarrow> Inl e
      | Inr dm_dt_mat \<Rightarrow> np_hstack dm_ds_mat dm_dt_mat))"

text \<open>The five blocks stacked vertically: Vsv, Vsh, Vpv, Vph, Eta.\<close>

definition scale_dvsv_dp_to_other_variables :: "matrix \<Rightarrow> SetupModel \<Rightarrow> matrix" where
  "scale_dvsv_dp_to_other_variables dvsv_dp_mat setup_model =
     dvsv_dp_mat
     @ map (map (\<lambda>x. x / vsv_vsh_ratio setup_model)) dvsv_dp_mat
     @ map (map (\<lambda>x. x * vpv_vsv_ratio setup_model)) dvsv_dp_mat
     @ map (map (\<lambda>x. x * vpv_vsv_ratio setup_model / vpv_vph_ratio setup_model)) dvsv_dp_mat
     @ map (map (\<lambda>_. 0)) dvsv_dp_mat"

definition build_partial_derivatives_matrix ::
    "kernel_row list \<Rightarrow> InversionModel \<Rightarrow> SetupModel \<Rightarrow> py_error + ndarray" where
  "build_partial_derivatives_matrix kernels model setup_model =
     (case build_MINEOS_G_matrix kernels of
        Inl e \<Rightarrow> Inl e
      | Inr G_MINEOS \<Rightarrow>
     (case convert_to_model_kernels (pd_unique (map k_z kernels)) model of
        Inl e \<Rightarrow> Inl e
      | Inr dvsv_dp_mat \<Rightarrow>
          np_matmul G_MINEOS (scale_dvsv_dp_to_other_variables dvsv_dp_mat setup_model)))"


section \<open>Building the starting model\<close>

text \<open>\<open>max((1, int(gap // min_layer_thickness)))\<close>. The floor division of two floats is
  the floor of the quotient. When \<open>min_layer_thickness\<close> is zero the numpy floor division
  gives \<open>nan\<close> (for a zero gap) or an infinity, and \<open>int\<close> raises \<open>ValueError\<close> or
  \<open>OverflowError\<close>.\<close>

definition n_layers_for :: "real \<Rightarrow> real \<Rightarrow> py_error + nat" where
  "n_layers_for gap min_thick =
     (if min_thick = 0 then Inl (if gap = 0 then ValueError else OverflowError)
      else Inr (nat (max 1 \<lfloor>gap / min_thick\<rfloor>)))"

text \<open>\<open>for n in range(k): vsv += [vsv[-1] + step]\<close>, the list is never empty.\<close>

fun extend_vsv :: "nat \<Rightarrow> real \<Rightarrow> real list \<Rightarrow> real list" where
  "extend_vsv 0 step vs = vs"
| "extend_vsv (Suc k) step vs = extend_vsv k step (vs @ [last vs + step])"

text \<open>The body of the loop over the boundaries, for boundary \<open>i_b\<close>; the state is the
  model built so far. Reading an array beyond its end raises \<open>IndexError\<close>. The two
  velocity gradients are numpy divisions: a zero denominator gives \<open>inf\<close> or \<open>nan\<close>
  velocities there, which this model does not represent (the thicknesses do not depend on
  them).\<close>

definition add_boundary :: "SetupModel \<Rightarrow> nat \<Rightarrow> InversionModel \<Rightarrow> py_error + InversionModel" where
  "add_boundary setup_model i_b st =
     (if \<not> (i_b * 2 + 1 < length (boundary_vsv setup_model) \<and>
             i_b < length (boundary_depths setup_model) \<and>
             i_b < length (boundary_widths setup_model) \<and>
             i_b < length (boundary_depth_uncertainty setup_model))
      then Inl IndexError
      else
        let vsv_top_layer_i = boundary_vsv setup_model ! (i_b * 2);
            vsv_base_layer_i = boundary_vsv setup_model ! (i_b * 2 + 1);
            depth_top_layer_i = boundary_depths setup_model ! i_b
                                  - boundary_widths setup_model ! i_b / 2;
            depth_base_layer_i = depth_top_layer_i + boundary_widths setup_model ! i_b;
            padding = boundary_depth_uncertainty setup_model ! i_b
                        + min_layer_thickness setup_model;
            depth_top_layer_i_minus_1 = depth_top_layer_i - padding;
            depth_base_layer_i_plus_1 = depth_base_layer_i + padding;
            depth_boundary_above = sum_list (thickness st);
            depth_between_boundaries = depth_top_layer_i - depth_boundary_above
        in case n_layers_for (depth_top_layer_i_minus_1 - depth_boundary_above)
                  (min_layer_thickness setup_model) of
             Inl e \<Rightarrow> Inl e
           | Inr n_layers_above \<Rightarrow>
               let thickness_layers_above =
                     (depth_top_layer_i_minus_1 - depth_boundary_above) / real n_layers_above;
                   vsv_grad_above = (vsv_top_layer_i - last (vsv st)) / depth_between_boundaries;
                   thickness' = thickness st
                     @ replicate n_layers_above thickness_layers_above
                     @ [depth_top_layer_i - depth_top_layer_i_minus_1]
                     @ [boundary_widths setup_model ! i_b]
                     @ [depth_base_layer_i_plus_1 - depth_base_layer_i]
               in Inr \<lparr>vsv = extend_vsv n_layers_above (vsv_grad_above * thickness_layers_above) (vsv st)
                             @ [vsv_top_layer_i, vsv_base_layer_i, vsv_base_layer_i],
                        thickness = thickness',
                        boundary_inds = boundary_inds st @ [length thickness' - 3]\<rparr>)"

text \<open>\<open>setup_starting_model\<close>. The reference card is read from a file; \<open>ref_vs d\<close> stands
  for \<open>np.interp(d, ref_depth, ref_vs)\<close>, the reference velocity at depth \<open>d\<close>.\<close>

definition setup_starting_model :: "(real \<Rightarrow> real) \<Rightarrow> SetupModel \<Rightarrow> py_error + InversionModel" where
  "setup_starting_model ref_vs setup_model =
     (case getitem (depth_limits setup_model) 0 of
        Inl e \<Rightarrow> Inl e
      | Inr limit_top \<Rightarrow>
     (case for_each [0..<length (boundary_depths setup_model)] (add_boundary setup_model)
             \<lparr>vsv = [ref_vs limit_top], thickness = [limit_top], boundary_inds = []\<rparr> of
        Inl e \<Rightarrow> Inl e
      | Inr st \<Rightarrow>
     (case getitem (depth_limits setup_model) 1 of
        Inl e \<Rightarrow> Inl e
      | Inr limit_base \<Rightarrow>
          (let depth_to_bottom = limit_base - sum_list (thickness st)
           in case n_layers_for depth_to_bottom (min_layer_thickness setup_model) of
                Inl e \<Rightarrow> Inl e
              | Inr n_layers_below \<Rightarrow>
                  let thick_layers_below = depth_to_bottom / real n_layers_below;
                      vsv_grad_below = (ref_vs limit_base - last (vsv st)) / depth_to_bottom
                  in Inr \<lparr>vsv = extend_vsv n_layers_below (vsv_grad_below * thick_layers_below)
                                  (vsv st),
                           thickness = thickness st @ replicate n_layers_below thick_layers_below,
                           boundary_inds = boundary_inds st\<rparr>))))"

text \<open>The depths the loop computes for boundary \<open>i\<close>, as functions of the configuration:
  the top of the boundary layer, its padding, the depth of the node below it, and the
  depth reached before boundary \<open>i\<close> is added (the value of \<open>sum(thickness)\<close> there).\<close>

definition depth_top_layer :: "SetupModel \<Rightarrow> nat \<Rightarrow> real" where
  "depth_top_layer s i = boundary_depths s ! i - boundary_widths s ! i / 2"

definition padding_of :: "SetupModel \<Rightarrow> nat \<Rightarrow> real" where
  "padding_of s i = boundary_depth_uncertainty s ! i + min_layer_thickness s"

definition depth_base_plus_1 :: "SetupModel \<Rightarrow> nat \<Rightarrow> real" where
  "depth_base_plus_1 s i = depth_top_layer s i + boundary_widths s ! i + padding_of s i"

definition depth_boundary_above :: "SetupModel \<Rightarrow> nat \<Rightarrow> real" where
  "depth_boundary_above s i = (if i = 0 then depth_limits s ! 0 else depth_base_plus_1 s (i - 1))"

text \<open>A configuration with arrays of the documented sizes and a positive minimum layer
  thickness; and a valid one, whose widths and uncertainties are not negative and whose
  padded boundaries neither overlap nor leave the depth limits.\<close>

definition well_shaped :: "SetupModel \<Rightarrow> bool" where
  "well_shaped s =
     (length (depth_limits s) = 2 \<and>
      length (boundary_widths s) = length (boundary_depths s) \<and>
      length (boundary_depth_uncertainty s) = length (boundary_depths s) \<and>
      length (boundary_vsv s) = 2 * length (boundary_depths s) \<and>
      0 < min_layer_thickness s)"

definition valid_config :: "SetupModel \<Rightarrow> bool" where
  "valid_config s =
     (well_shaped s \<and>
      (\<forall>i<length (boundary_depths s).
          0 \<le> boundary_widths s ! i \<and> 0 \<le> boundary_depth_uncertainty s ! i \<and>
          depth_boundary_above s i \<le> depth_top_layer s i - padding_of s i) \<and>
      depth_boundary_above s (length (boundary_depths s)) \<le> depth_limits s ! 1)"

section \<open>Splicing the new model into the reference model\<close>

text \<open>A pandas \<open>DataFrame\<close> of floats: the column names in order, and the rows, each with
  one value per column.\<close>

record dataframe =
  df_columns :: "string list"
  df_rows :: "real list list"

fun index_of :: "string list \<Rightarrow> string \<Rightarrow> nat option" where
  "index_of [] name = None"
| "index_of (c # cs) name = (if c = name then Some 0 else map_option Suc (index_of cs name))"

text \<open>\<open>df[name]\<close>: the values of a column, \<open>KeyError\<close> for a name that is no column.\<close>

definition df_column :: "dataframe \<Rightarrow> string \<Rightarrow> py_error + real list" where
  "df_column df name =
     (case index_of (df_columns df) name of
        None \<Rightarrow> Inl KeyError
      | Some j \<Rightarrow> Inr (map (\<lambda>row. row ! j) (df_rows df)))"

text \<open>\<open>df[mask]\<close> for a boolean mask computed from the radius column: the rows whose
  radius satisfies the condition, in their order.\<close>

definition df_where_radius :: "(real \<Rightarrow> bool) \<Rightarrow> dataframe \<Rightarrow> py_error + dataframe" where
  "df_where_radius cond df =
     (case index_of (df_columns df) ''radius'' of
        None \<Rightarrow> Inl KeyError
      | Some j \<Rightarrow> Inr (df\<lparr>df_rows := filter (\<lambda>row. cond (row ! j)) (df_rows df)\<rparr>))"

text \<open>\<open>np.interp(x, xp, fp)\<close> for sample points \<open>xp\<close> that do not decrease. Left of the
  first point it is the first value and right of the last point the last value. In
  between numpy searches the last index \<open>j\<close> with \<open>xp[j] \<le> x\<close> and returns \<open>fp[j]\<close> when
  \<open>x = xp[j]\<close>, and \<open>slope * (x - xp[j]) + fp[j]\<close> otherwise; of several rows with the
  same abscissa \<open>x\<close> it therefore takes the last. It raises \<open>ValueError\<close> when there is no
  sample point or the two arrays differ in length.\<close>

fun interp_points :: "real \<Rightarrow> (real \<times> real) list \<Rightarrow> real" where
  "interp_points x [] = 0"
| "interp_points x [(x0, y0)] = y0"
| "interp_points x ((x0, y0) # (x1, y1) # rest) =
     (if x < x0 then y0
      else if x < x1 then (if x = x0 then y0 else (y1 - y0) / (x1 - x0) * (x - x0) + y0)
      else interp_points x ((x1, y1) # rest))"

definition np_interp :: "real \<Rightarrow> real list \<Rightarrow> real list \<Rightarrow> py_error + real" where
  "np_interp x xp fp =
     (if xp = [] \<or> length xp \<noteq> length fp then Inl ValueError
      else Inr (interp_points x (zip xp fp)))"

text \<open>\<open>smoothed[col] += delta * fraction\<close> on the column with index \<open>j\<close>.\<close>

definition add_to_column :: "nat \<Rightarrow> real \<Rightarrow> real list \<Rightarrow> real list list \<Rightarrow> real list list" where
  "add_to_column j delta fraction rws =
     map2 (\<lambda>row f. row[j := row ! j + delta * f]) rws fraction"

text \<open>The loop \<open>for col in ref_model.columns.tolist()[1:]\<close> of both smoothing functions.
  They differ in the row of the new model they read (\<open>iloc[0]\<close> below, \<open>iloc[-1]\<close> above),
  given here as the index \<open>edge\<close>; \<open>edge_radius\<close> is the radius of that row. The state of the
  loop is the list of rows of \<open>smoothed_ref_model\<close>.\<close>

definition smooth_columns ::
    "dataframe \<Rightarrow> dataframe \<Rightarrow> int \<Rightarrow> real \<Rightarrow> real list \<Rightarrow> real list list \<Rightarrow> py_error + real list list" where
  "smooth_columns ref_model new_model edge edge_radius fraction_new_model smoothed =
     for_each (tl (df_columns ref_model))
       (\<lambda>col rws.
          case df_column ref_model ''radius'' of Inl e \<Rightarrow> Inl e | Inr ref_radius \<Rightarrow>
         (case df_column ref_model col of Inl e \<Rightarrow> Inl e | Inr ref_col \<Rightarrow>
         (case np_interp edge_radius ref_radius ref_col of Inl e \<Rightarrow> Inl e | Inr ref_value \<Rightarrow>
         (case df_column new_model col of Inl e \<Rightarrow> Inl e | Inr new_col \<Rightarrow>
         (case getitem new_col edge of Inl e \<Rightarrow> Inl e | Inr new_value \<Rightarrow>
         (case index_of (df_columns ref_model) col of None \<Rightarrow> Inl KeyError | Some j \<Rightarrow>
            Inr (add_to_column j (new_value - ref_value) fraction_new_model rws)))))))
       smoothed"

definition smooth_z :: real where
  "smooth_z = 100 * 1000"

definition smooth_to_ref_model_below :: "dataframe \<Rightarrow> dataframe \<Rightarrow> py_error + dataframe" where
  "smooth_to_ref_model_below ref_model new_model =
     (case df_column new_model ''radius'' of Inl e \<Rightarrow> Inl e | Inr new_radius \<Rightarrow>
     (case getitem new_radius 0 of Inl e \<Rightarrow> Inl e | Inr radius_0 \<Rightarrow>
        (let base_of_smoothing = radius_0 - smooth_z
         in case df_where_radius (\<lambda>r. r < base_of_smoothing) ref_model of
              Inl e \<Rightarrow> Inl e | Inr unadulterated_ref_model \<Rightarrow>
           (case df_where_radius (\<lambda>r. base_of_smoothing \<le> r \<and> r < radius_0) ref_model of
              Inl e \<Rightarrow> Inl e | Inr smoothed_ref_model \<Rightarrow>
           (case df_column smoothed_ref_model ''radius'' of Inl e \<Rightarrow> Inl e | Inr smoothed_radius \<Rightarrow>
              (let fraction_new_model = map (\<lambda>r. (r - base_of_smoothing) / smooth_z) smoothed_radius
               in case smooth_columns ref_model new_model 0 radius_0 fraction_new_model
                         (df_rows smoothed_ref_model) of
                    Inl e \<Rightarrow> Inl e
                  | Inr rws \<Rightarrow>
                      Inr (ref_model\<lparr>df_rows := df_rows unadulterated_ref_model @ rws\<rparr>)))))))"

definition smooth_to_ref_model_above :: "dataframe \<Rightarrow> dataframe \<Rightarrow> py_error + dataframe" where
  "smooth_to_ref_model_above ref_model new_model =
     (case df_column new_model ''radius'' of Inl e \<Rightarrow> Inl e | Inr new_radius \<Rightarrow>
     (case getitem new_radius (- 1) of Inl e \<Rightarrow> Inl e | Inr radius_N \<Rightarrow>
        (let top_of_smoothing = radius_N + smooth_z
         in case df_where_radius (\<lambda>r. top_of_smoothing < r) ref_model of
              Inl e \<Rightarrow> Inl e | Inr unadulterated_ref_model \<Rightarrow>
           (case df_where_radius (\<lambda>r. radius_N < r \<and> r \<le> top_of_smoothing) ref_model of
              Inl e \<Rightarrow> Inl e | Inr smoothed_ref_model \<Rightarrow>
           (case df_column smoothed_ref_model ''radius'' of Inl e \<Rightarrow> Inl e | Inr smoothed_radius \<Rightarrow>
              (let fraction_new_model = map (\<lambda>r. (top_of_smoothing - r) / smooth_z) smoothed_radius
               in case smooth_columns ref_model new_model (- 1) radius_N fraction_new_model
                         (df_rows smoothed_ref_model) of
                    Inl e \<Rightarrow> Inl e
                  | Inr rws \<Rightarrow>
                      Inr (ref_model\<lparr>df_rows := rws @ df_rows unadulterated_ref_model\<rparr>)))))))"

section \<open>Shapes and loops that fill one column\<close>

lemma getitem_nat:
  "getitem xs (int k) = (if k < length xs then Inr (xs ! k) else Inl IndexError)"
  by (simp add: getitem_def)

lemma getitem_nat_Suc:
  "getitem xs (int k + 1) = (if Suc k < length xs then Inr (xs ! Suc k) else Inl IndexError)"
  using getitem_nat [of xs "Suc k"] by (simp add: add.commute)

lemma mat_shape_row: "mat_shape mat R C \<Longrightarrow> r < R \<Longrightarrow> length (mat ! r) = C"
  by (auto simp: mat_shape_def list_all_length)

lemma mat_shape_zeros: "mat_shape (replicate R (replicate C 0)) R C"
  by (simp add: mat_shape_def list_all_length)

lemma setitem2_shape:
  assumes "mat_shape mat R C" "r < R" "c < C"
  shows "setitem2 mat r c v = Inr (mat[r := (mat ! r)[c := v]])"
    and "mat_shape (mat[r := (mat ! r)[c := v]]) R C"
  using assms by (auto simp: setitem2_def mat_shape_def list_all_length nth_list_update)

lemma setitem2_entry:
  assumes "mat_shape mat R C" "r < R" "c < C" "r' < R" "c' < C"
  shows "(mat[r := (mat ! r)[c := v]]) ! r' ! c' = (if r' = r \<and> c' = c then v else mat ! r' ! c')"
  using assms by (auto simp: mat_shape_def list_all_length nth_list_update)

text \<open>A loop \<open>for i_d in d_inds: mat[i_d, c] = g(i_d)\<close> over row indices inside a
  matrix of known shape succeeds, keeps the shape, and changes exactly the entries
  \<open>(r, c)\<close> with \<open>r\<close> in \<open>d_inds\<close>.\<close>

lemma for_each_assign:
  assumes "mat_shape mat R C" "c < C" "\<forall>r\<in>set rs. r < R"
  shows "\<exists>mat'. for_each rs (\<lambda>r m. setitem2 m r c (g r)) mat = Inr mat' \<and> mat_shape mat' R C \<and>
           (\<forall>r<R. \<forall>c'<C. mat' ! r ! c' = (if r \<in> set rs \<and> c' = c then g r else mat ! r ! c'))"
  using assms
proof (induction rs arbitrary: mat)
  case Nil
  then show ?case by simp
next
  case (Cons r rs)
  let ?m1 = "mat[r := (mat ! r)[c := g r]]"
  have r: "r < R" using Cons.prems by simp
  have step: "setitem2 mat r c (g r) = Inr ?m1" and sh: "mat_shape ?m1 R C"
    using setitem2_shape [OF Cons.prems(1) r Cons.prems(2)] by auto
  from Cons.IH [OF sh Cons.prems(2)] Cons.prems(3)
  obtain mat' where m': "for_each rs (\<lambda>r m. setitem2 m r c (g r)) ?m1 = Inr mat'"
      "mat_shape mat' R C"
      "\<forall>r'<R. \<forall>c'<C. mat' ! r' ! c' = (if r' \<in> set rs \<and> c' = c then g r' else ?m1 ! r' ! c')"
    by auto
  have "\<forall>r'<R. \<forall>c'<C. mat' ! r' ! c' =
          (if r' \<in> set (r # rs) \<and> c' = c then g r' else mat ! r' ! c')"
    using m'(3) setitem2_entry [OF Cons.prems(1) r Cons.prems(2)] by auto
  with m'(1,2) step show ?case by auto
qed

lemma np_where_set: "set (np_where cond depth) = {k. k < length depth \<and> cond (depth ! k)}"
  by (auto simp: np_where_def)

lemma sum_thickness_beyond:
  "length (thickness model) \<le> k \<Longrightarrow> sum_thickness model (k + j) = sum_thickness model k"
  by (simp add: sum_thickness_def)

lemma sum_thickness_Suc:
  "k < length (thickness model) \<Longrightarrow>
     sum_thickness model (Suc k) = sum_thickness model k + thickness model ! k"
  by (simp add: sum_thickness_def take_Suc_conv_app_nth)

lemma shallower_s_effect:
  assumes sh: "mat_shape mat R C" and len: "length depth = R" and i: "i < C"
  shows "\<exists>mat'. convert_kernels_d_shallowerm_by_d_s model i depth mat = Inr mat' \<and>
           mat_shape mat' R C \<and>
           (\<forall>r<R. \<forall>c<C. mat' ! r ! c =
              (if c = i \<and> sum_thickness model i < depth ! r \<and> depth ! r \<le> sum_thickness model (i + 1)
               then (depth ! r - sum_thickness model i) / thickness model ! i
               else mat ! r ! c))"
proof (cases "i < length (thickness model)")
  case True
  let ?rs = "np_where (\<lambda>z. sum_thickness model i < z \<and> z \<le> sum_thickness model (i + 1)) depth"
  have rs: "\<forall>r\<in>set ?rs. r < R" using len by (simp add: np_where_set)
  from for_each_assign [OF sh i rs, of "\<lambda>r. (depth ! r - sum_thickness model i) / thickness model ! i"]
  obtain mat' where a: "for_each ?rs (\<lambda>r m. setitem2 m r i
        ((depth ! r - sum_thickness model i) / thickness model ! i)) mat = Inr mat'"
    and b: "mat_shape mat' R C"
    and c: "\<forall>r<R. \<forall>c'<C. mat' ! r ! c' = (if r \<in> set ?rs \<and> c' = i
        then (depth ! r - sum_thickness model i) / thickness model ! i else mat ! r ! c')"
    by blast
  have "convert_kernels_d_shallowerm_by_d_s model i depth mat = Inr mat'"
    using a True by (simp add: convert_kernels_d_shallowerm_by_d_s_def Let_def getitem_nat)
  moreover have "\<forall>r<R. \<forall>c<C. mat' ! r ! c =
              (if c = i \<and> sum_thickness model i < depth ! r \<and> depth ! r \<le> sum_thickness model (i + 1)
               then (depth ! r - sum_thickness model i) / thickness model ! i
               else mat ! r ! c)"
    using c len by (auto simp: np_where_set)
  ultimately show ?thesis using b by blast
next
  case False
  then have "sum_thickness model (i + 1) = sum_thickness model i"
    using sum_thickness_beyond [of model i 1] by simp
  then have "np_where (\<lambda>z. sum_thickness model i < z \<and> z \<le> sum_thickness model (i + 1)) depth = []"
    by (simp add: np_where_def)
  then show ?thesis using sh \<open>sum_thickness model (i + 1) = sum_thickness model i\<close>
    by (simp add: convert_kernels_d_shallowerm_by_d_s_def Let_def)
qed

lemma deeper_s_effect:
  assumes sh: "mat_shape mat R C" and len: "length depth = R" and i: "i < C"
  shows "\<exists>mat'. convert_kernels_d_deeperm_by_d_s model i depth mat = Inr mat' \<and>
           mat_shape mat' R C \<and>
           (\<forall>r<R. \<forall>c<C. mat' ! r ! c =
              (if c = i \<and> sum_thickness model (i + 1) \<le> depth ! r \<and> depth ! r < sum_thickness model (i + 2)
               then 1 - (depth ! r - sum_thickness model (i + 1)) / thickness model ! (i + 1)
               else mat ! r ! c))"
proof (cases "i + 1 < length (thickness model)")
  case True
  let ?rs = "np_where (\<lambda>z. sum_thickness model (i + 1) \<le> z \<and> z < sum_thickness model (i + 2)) depth"
  have rs: "\<forall>r\<in>set ?rs. r < R" using len by (simp add: np_where_set)
  from for_each_assign [OF sh i rs, of "\<lambda>r. 1 - (depth ! r - sum_thickness model (i + 1)) / thickness model ! (i + 1)"]
  obtain mat' where a: "for_each ?rs (\<lambda>r m. setitem2 m r i
        (1 - (depth ! r - sum_thickness model (i + 1)) / thickness model ! (i + 1))) mat = Inr mat'"
    and b: "mat_shape mat' R C"
    and c: "\<forall>r<R. \<forall>c'<C. mat' ! r ! c' = (if r \<in> set ?rs \<and> c' = i
        then 1 - (depth ! r - sum_thickness model (i + 1)) / thickness model ! (i + 1) else mat ! r ! c')"
    by blast
  have "convert_kernels_d_deeperm_by_d_s model i depth mat = Inr mat'"
    using a True by (simp add: convert_kernels_d_deeperm_by_d_s_def Let_def getitem_nat_Suc)
  moreover have "\<forall>r<R. \<forall>c<C. mat' ! r ! c =
              (if c = i \<and> sum_thickness model (i + 1) \<le> depth ! r \<and> depth ! r < sum_thickness model (i + 2)
               then 1 - (depth ! r - sum_thickness model (i + 1)) / thickness model ! (i + 1)
               else mat ! r ! c)"
    using c len by (auto simp: np_where_set)
  ultimately show ?thesis using b by blast
next
  case False
  then have eq: "sum_thickness model (i + 2) = sum_thickness model (i + 1)"
    using sum_thickness_beyond [of model "i + 1" 1] by (simp add: numeral_2_eq_2)
  then have "np_where (\<lambda>z. sum_thickness model (i + 1) \<le> z \<and> z < sum_thickness model (i + 2)) depth = []"
    by (simp add: np_where_def)
  then show ?thesis using sh eq
    by (simp add: convert_kernels_d_deeperm_by_d_s_def Let_def)
qed

text \<open>A loop over distinct columns whose body rewrites only its own column.\<close>

lemma for_each_columns:
  assumes body: "\<And>i m. i \<in> set cs \<Longrightarrow> mat_shape m R C \<Longrightarrow>
      \<exists>m'. body i m = Inr m' \<and> mat_shape m' R C \<and>
        (\<forall>r<R. \<forall>c<C. m' ! r ! c = (if c = i then F i r (m ! r ! c) else m ! r ! c))"
    and sh: "mat_shape mat R C" and dist: "distinct cs"
  shows "\<exists>mat'. for_each cs body mat = Inr mat' \<and> mat_shape mat' R C \<and>
           (\<forall>r<R. \<forall>c<C. mat' ! r ! c = (if c \<in> set cs then F c r (mat ! r ! c) else mat ! r ! c))"
  using assms
proof (induction cs arbitrary: mat)
  case Nil
  then show ?case by simp
next
  case (Cons i cs)
  from Cons.prems(1) [of i mat] Cons.prems(2)
  obtain m1 where m1: "body i mat = Inr m1" "mat_shape m1 R C"
      "\<forall>r<R. \<forall>c<C. m1 ! r ! c = (if c = i then F i r (mat ! r ! c) else mat ! r ! c)"
    by auto
  have "\<exists>mat'. for_each cs body m1 = Inr mat' \<and> mat_shape mat' R C \<and>
           (\<forall>r<R. \<forall>c<C. mat' ! r ! c = (if c \<in> set cs then F c r (m1 ! r ! c) else m1 ! r ! c))"
    using Cons.prems(1,3) by (intro Cons.IH [OF _ m1(2)]) auto
  then obtain mat' where m': "for_each cs body m1 = Inr mat'" "mat_shape mat' R C"
      "\<forall>r<R. \<forall>c<C. mat' ! r ! c = (if c \<in> set cs then F c r (m1 ! r ! c) else m1 ! r ! c)"
    by auto
  have "\<forall>r<R. \<forall>c<C. mat' ! r ! c =
          (if c \<in> set (i # cs) then F c r (mat ! r ! c) else mat ! r ! c)"
    using m'(3) m1(3) Cons.prems(3) by auto
  with m'(1,2) m1(1) show ?case by auto
qed

lemma deeper_s_noop:
  assumes "length (thickness model) \<le> i + 1"
  shows "convert_kernels_d_deeperm_by_d_s model i depth mat = Inr mat"
proof -
  have "sum_thickness model (i + 2) = sum_thickness model (i + 1)"
    using sum_thickness_beyond [of model "i + 1" 1] assms by (simp add: numeral_2_eq_2)
  then show ?thesis
    by (simp add: convert_kernels_d_deeperm_by_d_s_def Let_def np_where_def)
qed

text \<open>Every entry of dm/ds, for a model whose two arrays have the same length.\<close>

lemma calculate_dm_ds_entries:
  assumes len: "length (vsv model) = length (thickness model)" and ne: "vsv model \<noteq> []"
  shows "\<exists>M. calculate_dm_ds model depth = Inr M \<and>
           mat_shape M (length depth) (length (vsv model) - 1) \<and>
           (\<forall>r<length depth. \<forall>i<length (vsv model) - 1. M ! r ! i =
              (if sum_thickness model (i + 1) \<le> depth ! r \<and> depth ! r < sum_thickness model (i + 2)
               then 1 - (depth ! r - sum_thickness model (i + 1)) / thickness model ! (i + 1)
               else if 1 \<le> i \<and> sum_thickness model i < depth ! r \<and> depth ! r \<le> sum_thickness model (i + 1)
               then (depth ! r - sum_thickness model i) / thickness model ! i
               else 0))"
proof -
  let ?R = "length depth" and ?C = "length (vsv model) - 1"
  let ?Z = "replicate ?R (replicate ?C (0::real))"
  let ?F = "\<lambda>i r old.
      (if sum_thickness model (i + 1) \<le> depth ! r \<and> depth ! r < sum_thickness model (i + 2)
       then 1 - (depth ! r - sum_thickness model (i + 1)) / thickness model ! (i + 1)
       else if sum_thickness model i < depth ! r \<and> depth ! r \<le> sum_thickness model (i + 1)
       then (depth ! r - sum_thickness model i) / thickness model ! i
       else old)"
  let ?body = "\<lambda>i mat. case convert_kernels_d_shallowerm_by_d_s model i depth mat of
                         Inl e \<Rightarrow> Inl e
                       | Inr mat' \<Rightarrow> convert_kernels_d_deeperm_by_d_s model i depth mat'"
  have zeros: "np_zeros ?R (int (length (vsv model)) - 1) = Inr ?Z"
    using ne by (cases "vsv model") (simp_all add: np_zeros_def)
  have shZ: "mat_shape ?Z ?R ?C" by (rule mat_shape_zeros)
  have nat: "nat (int (length (vsv model)) - 1) = ?C" by simp
  \<comment> \<open>the first column\<close>
  have "\<exists>first. convert_kernels_d_deeperm_by_d_s model 0 depth ?Z = Inr first \<and>
          mat_shape first ?R ?C \<and>
          (\<forall>r<?R. \<forall>c<?C. first ! r ! c =
              (if c = 0 \<and> sum_thickness model (0 + 1) \<le> depth ! r \<and> depth ! r < sum_thickness model (0 + 2)
               then 1 - (depth ! r - sum_thickness model (0 + 1)) / thickness model ! (0 + 1)
               else 0))"
  proof (cases "0 < ?C")
    case True
    from deeper_s_effect [OF shZ refl True, of model]
    obtain f where f: "convert_kernels_d_deeperm_by_d_s model 0 depth ?Z = Inr f"
        "mat_shape f ?R ?C"
        "\<forall>r<?R. \<forall>c<?C. f ! r ! c =
              (if c = 0 \<and> sum_thickness model (0 + 1) \<le> depth ! r \<and> depth ! r < sum_thickness model (0 + 2)
               then 1 - (depth ! r - sum_thickness model (0 + 1)) / thickness model ! (0 + 1)
               else ?Z ! r ! c)"
      by blast
    have "\<forall>r<?R. \<forall>c<?C. f ! r ! c =
              (if c = 0 \<and> sum_thickness model (0 + 1) \<le> depth ! r \<and> depth ! r < sum_thickness model (0 + 2)
               then 1 - (depth ! r - sum_thickness model (0 + 1)) / thickness model ! (0 + 1)
               else 0)"
    proof (intro allI impI)
      fix r c assume rc: "r < ?R" "c < ?C"
      then have z: "?Z ! r ! c = 0" by simp
      show "f ! r ! c =
              (if c = 0 \<and> sum_thickness model (0 + 1) \<le> depth ! r \<and> depth ! r < sum_thickness model (0 + 2)
               then 1 - (depth ! r - sum_thickness model (0 + 1)) / thickness model ! (0 + 1)
               else 0)"
        using f(3) [rule_format, OF rc] by (simp only: z)
    qed
    with f(1,2) show ?thesis by blast
  next
    case False
    then have "length (thickness model) \<le> 0 + 1" using len by simp
    from deeper_s_noop [OF this] False shZ show ?thesis by simp
  qed
  then obtain first where first: "convert_kernels_d_deeperm_by_d_s model 0 depth ?Z = Inr first"
      "mat_shape first ?R ?C"
      "\<forall>r<?R. \<forall>c<?C. first ! r ! c =
              (if c = 0 \<and> sum_thickness model (0 + 1) \<le> depth ! r \<and> depth ! r < sum_thickness model (0 + 2)
               then 1 - (depth ! r - sum_thickness model (0 + 1)) / thickness model ! (0 + 1)
               else 0)"
    by blast
  \<comment> \<open>the other columns\<close>
  have body: "\<exists>m'. ?body i m = Inr m' \<and> mat_shape m' ?R ?C \<and>
        (\<forall>r<?R. \<forall>c<?C. m' ! r ! c = (if c = i then ?F i r (m ! r ! c) else m ! r ! c))"
    if "i \<in> set [1..<?C]" "mat_shape m ?R ?C" for i m
  proof -
    have i: "i < ?C" using that(1) by simp
    from shallower_s_effect [OF that(2) refl i, of model]
    obtain m1 where m1: "convert_kernels_d_shallowerm_by_d_s model i depth m = Inr m1"
        "mat_shape m1 ?R ?C"
        "\<forall>r<?R. \<forall>c<?C. m1 ! r ! c =
              (if c = i \<and> sum_thickness model i < depth ! r \<and> depth ! r \<le> sum_thickness model (i + 1)
               then (depth ! r - sum_thickness model i) / thickness model ! i
               else m ! r ! c)"
      by blast
    from deeper_s_effect [OF m1(2) refl i, of model]
    obtain m2 where m2: "convert_kernels_d_deeperm_by_d_s model i depth m1 = Inr m2"
        "mat_shape m2 ?R ?C"
        "\<forall>r<?R. \<forall>c<?C. m2 ! r ! c =
              (if c = i \<and> sum_thickness model (i + 1) \<le> depth ! r \<and> depth ! r < sum_thickness model (i + 2)
               then 1 - (depth ! r - sum_thickness model (i + 1)) / thickness model ! (i + 1)
               else m1 ! r ! c)"
      by blast
    have "\<forall>r<?R. \<forall>c<?C. m2 ! r ! c = (if c = i then ?F i r (m ! r ! c) else m ! r ! c)"
      using m1(3) m2(3) by auto
    with m1(1) m2(1,2) show ?thesis by auto
  qed
  from for_each_columns [of "[1..<?C]" ?R ?C ?body ?F first, OF body first(2)]
  obtain M where M: "for_each [1..<?C] ?body first = Inr M" "mat_shape M ?R ?C"
      "\<forall>r<?R. \<forall>c<?C. M ! r ! c =
          (if c \<in> set [1..<?C] then ?F c r (first ! r ! c) else first ! r ! c)"
    by auto
  have "calculate_dm_ds model depth = Inr M"
    using zeros first(1) M(1) nat by (simp add: calculate_dm_ds_def Let_def)
  moreover have "\<forall>r<?R. \<forall>i<?C. M ! r ! i =
              (if sum_thickness model (i + 1) \<le> depth ! r \<and> depth ! r < sum_thickness model (i + 2)
               then 1 - (depth ! r - sum_thickness model (i + 1)) / thickness model ! (i + 1)
               else if 1 \<le> i \<and> sum_thickness model i < depth ! r \<and> depth ! r \<le> sum_thickness model (i + 1)
               then (depth ! r - sum_thickness model i) / thickness model ! i
               else 0)"
  proof (intro allI impI)
    fix r i assume r: "r < ?R" and i: "i < ?C"
    show "M ! r ! i =
              (if sum_thickness model (i + 1) \<le> depth ! r \<and> depth ! r < sum_thickness model (i + 2)
               then 1 - (depth ! r - sum_thickness model (i + 1)) / thickness model ! (i + 1)
               else if 1 \<le> i \<and> sum_thickness model i < depth ! r \<and> depth ! r \<le> sum_thickness model (i + 1)
               then (depth ! r - sum_thickness model i) / thickness model ! i
               else 0)"
    proof (cases "i = 0")
      case True
      then show ?thesis using M(3) first(3) r i by simp
    next
      case False
      then have "i \<in> set [1..<?C]" using i by simp
      then show ?thesis using M(3) first(3) r i False by simp
    qed
  qed
  ultimately show ?thesis using M(2) by blast
qed

section \<open>Claims about dm/ds\<close>

text \<open>
  Claim C2. Write \<open>y\<^sub>k\<close> for the cumulative thickness through node \<open>k\<close>, which the code
  computes as \<open>np.sum(model.thickness[:k + 1])\<close>, here \<open>sum_thickness model (k + 1)\<close>
  (so \<open>y\<^sub>i\<^sub>-\<^sub>1\<close> is \<open>sum_thickness model i\<close>). For a model whose \<open>vsv\<close> and
  \<open>thickness\<close> have the same length, every velocity node \<open>i\<close> but the last and every card
  depth \<open>z = depth ! r\<close>, \<open>calculate_dm_ds\<close> returns a matrix whose entry \<open>(r, i)\<close> is
  \<open>(z - y\<^sub>i\<^sub>-\<^sub>1) / thickness[i]\<close> when \<open>y\<^sub>i\<^sub>-\<^sub>1 < z \<le> y\<^sub>i\<close> (a range that exists for
  \<open>i \<ge> 1\<close> only: node 0 has no node above it), \<open>1 - (z - y\<^sub>i) / thickness[i + 1]\<close> when
  \<open>y\<^sub>i \<le> z < y\<^sub>i\<^sub>+\<^sub>1\<close>, and 0 at every other depth. At \<open>z = y\<^sub>i\<close> both formulas apply
  and both give 1. The increasing depths of the claim are not needed for this.
\<close>


theorem dm_ds_column_formula:
  assumes len: "length (vsv model) = length (thickness model)"
    and i: "i + 1 < length (vsv model)"
    and r: "r < length depth"
  shows "\<exists>M. calculate_dm_ds model depth = Inr M \<and>
     (1 \<le> i \<and> sum_thickness model i < depth ! r \<and> depth ! r \<le> sum_thickness model (i + 1)
        \<longrightarrow> M ! r ! i = (depth ! r - sum_thickness model i) / thickness model ! i) \<and>
     (sum_thickness model (i + 1) \<le> depth ! r \<and> depth ! r < sum_thickness model (i + 2)
        \<longrightarrow> M ! r ! i = 1 - (depth ! r - sum_thickness model (i + 1)) / thickness model ! (i + 1)) \<and>
     (\<not> (1 \<le> i \<and> sum_thickness model i < depth ! r \<and> depth ! r \<le> sum_thickness model (i + 1)) \<and>
      \<not> (sum_thickness model (i + 1) \<le> depth ! r \<and> depth ! r < sum_thickness model (i + 2))
        \<longrightarrow> M ! r ! i = 0)"
proof -
  have ne: "vsv model \<noteq> []" using i by auto
  from calculate_dm_ds_entries [OF len ne, of depth]
  obtain M where M: "calculate_dm_ds model depth = Inr M"
    and E: "\<forall>r<length depth. \<forall>i<length (vsv model) - 1. M ! r ! i =
              (if sum_thickness model (i + 1) \<le> depth ! r \<and> depth ! r < sum_thickness model (i + 2)
               then 1 - (depth ! r - sum_thickness model (i + 1)) / thickness model ! (i + 1)
               else if 1 \<le> i \<and> sum_thickness model i < depth ! r \<and> depth ! r \<le> sum_thickness model (i + 1)
               then (depth ! r - sum_thickness model i) / thickness model ! i
               else 0)"
    by blast
  have i': "i < length (vsv model) - 1" using i by simp
  note e = E [rule_format, OF r i']
  have il: "i < length (thickness model)" using i len by simp
  have both: "(depth ! r - sum_thickness model i) / thickness model ! i = 1"
    if "sum_thickness model i < depth ! r" "depth ! r = sum_thickness model (i + 1)"
    using that sum_thickness_Suc [OF il] by simp
  have 1: "1 \<le> i \<and> sum_thickness model i < depth ! r \<and> depth ! r \<le> sum_thickness model (i + 1)
        \<longrightarrow> M ! r ! i = (depth ! r - sum_thickness model i) / thickness model ! i"
  proof (intro impI, elim conjE)
    assume a: "1 \<le> i" "sum_thickness model i < depth ! r" "depth ! r \<le> sum_thickness model (i + 1)"
    show "M ! r ! i = (depth ! r - sum_thickness model i) / thickness model ! i"
    proof (cases "depth ! r = sum_thickness model (i + 1)")
      case True
      then show ?thesis using e a both by auto
    next
      case False
      then show ?thesis using e a by auto
    qed
  qed
  have 2: "sum_thickness model (i + 1) \<le> depth ! r \<and> depth ! r < sum_thickness model (i + 2)
        \<longrightarrow> M ! r ! i = 1 - (depth ! r - sum_thickness model (i + 1)) / thickness model ! (i + 1)"
    using e by simp
  have 3: "\<not> (1 \<le> i \<and> sum_thickness model i < depth ! r \<and> depth ! r \<le> sum_thickness model (i + 1)) \<and>
      \<not> (sum_thickness model (i + 1) \<le> depth ! r \<and> depth ! r < sum_thickness model (i + 2))
        \<longrightarrow> M ! r ! i = 0"
    using e by auto
  from M 1 2 3 show ?thesis by blast
qed

theorem dm_ds_column_formula_witness:
  "\<exists>M. calculate_dm_ds \<lparr>vsv = [3, 4, 5], thickness = [0, 10, 20], boundary_inds = []\<rparr>
          [5, 10, 20, 35] = Inr M \<and>
       M ! 0 ! 1 = 1 / 2 \<and> M ! 1 ! 1 = 1 \<and> M ! 2 ! 1 = 1 / 2 \<and> M ! 3 ! 1 = 0"
proof -
  let ?m = "\<lparr>vsv = [3, 4, 5], thickness = [0, 10, 20], boundary_inds = []\<rparr>"
  let ?d = "[5, 10, 20, 35] :: real list"
  have a: "\<exists>M. calculate_dm_ds ?m ?d = Inr M \<and> M ! 0 ! 1 = 1 / 2"
    using dm_ds_column_formula [of ?m 1 0 ?d] by (simp add: sum_thickness_def)
  have b: "\<exists>M. calculate_dm_ds ?m ?d = Inr M \<and> M ! 1 ! 1 = 1"
    using dm_ds_column_formula [of ?m 1 1 ?d] by (simp add: sum_thickness_def)
  have c: "\<exists>M. calculate_dm_ds ?m ?d = Inr M \<and> M ! 2 ! 1 = 1 / 2"
    using dm_ds_column_formula [of ?m 1 2 ?d] by (simp add: sum_thickness_def)
  have d: "\<exists>M. calculate_dm_ds ?m ?d = Inr M \<and> M ! 3 ! 1 = 0"
    using dm_ds_column_formula [of ?m 1 3 ?d] by (simp add: sum_thickness_def)
  from a b c d show ?thesis by auto
qed

text \<open>
  Claim C10. For a model with at least two nodes whose thicknesses after the first are all
  positive, and a card depth \<open>z = depth ! r\<close> with \<open>y\<^sub>0 \<le> z \<le> y\<^sub>n\<^sub>-\<^sub>2\<close>, every entry
  of row \<open>r\<close> of dm/ds lies in \<open>[0, 1]\<close> and the entries of the row add up to exactly 1.
  Moreover the weight sits on the two nodes that bracket \<open>z\<close>: there is a node \<open>b\<close> with
  \<open>y\<^sub>b \<le> z < y\<^sub>b\<^sub>+\<^sub>1\<close>, column \<open>b\<close> holds \<open>1 - (z - y\<^sub>b) / thickness[b+1]\<close>, column
  \<open>b + 1\<close> holds \<open>(z - y\<^sub>b) / thickness[b+1]\<close>, and every other column of the row is zero.
  At the deepest admitted depth \<open>z = y\<^sub>n\<^sub>-\<^sub>2\<close> the node \<open>b\<close> is the last column, which then
  holds 1. The proof writes entry \<open>i\<close> as \<open>u\<^sub>i - u\<^sub>i\<^sub>+\<^sub>1\<close>, where \<open>u\<^sub>k\<close> is the fraction of the
  layer above node \<open>k\<close> that lies above \<open>z\<close>, so that the row sum telescopes; the cumulative
  depths increase strictly from \<open>y\<^sub>0\<close> on, so that \<open>z\<close> is in one layer only.
\<close>

theorem dm_ds_row_partition_of_unity:
  assumes len: "length (vsv model) = length (thickness model)"
    and n2: "2 \<le> length (vsv model)"
    and pos: "\<forall>k. 1 \<le> k \<and> k < length (thickness model) \<longrightarrow> 0 < thickness model ! k"
    and r: "r < length depth"
    and lo: "sum_thickness model 1 \<le> depth ! r"
    and hi: "depth ! r \<le> sum_thickness model (length (vsv model) - 1)"
  shows "\<exists>M. calculate_dm_ds model depth = Inr M \<and>
           (\<forall>i<length (vsv model) - 1. 0 \<le> M ! r ! i \<and> M ! r ! i \<le> 1) \<and>
           sum_list (M ! r) = 1 \<and>
           (\<exists>b<length (vsv model) - 1.
              sum_thickness model (b + 1) \<le> depth ! r \<and> depth ! r < sum_thickness model (b + 2) \<and>
              M ! r ! b = 1 - (depth ! r - sum_thickness model (b + 1)) / thickness model ! (b + 1) \<and>
              (b + 1 < length (vsv model) - 1 \<longrightarrow>
                 M ! r ! (b + 1) = (depth ! r - sum_thickness model (b + 1)) / thickness model ! (b + 1)) \<and>
              (b + 1 = length (vsv model) - 1 \<longrightarrow> M ! r ! b = 1) \<and>
              (\<forall>i<length (vsv model) - 1. i \<noteq> b \<and> i \<noteq> b + 1 \<longrightarrow> M ! r ! i = 0))"
proof -
  let ?n = "length (vsv model)"
  define z where "z = depth ! r"
  define S where "S = sum_thickness model"
  define th where "th = (\<lambda>k. thickness model ! k)"
  define u where "u = (\<lambda>k. if k = 0 then 1 else if z \<le> S k then 0
                            else if S (k + 1) \<le> z then 1 else (z - S k) / th k)"
  have ne: "vsv model \<noteq> []" using n2 by auto
  from calculate_dm_ds_entries [OF len ne, of depth]
  obtain M where M: "calculate_dm_ds model depth = Inr M"
    and sh: "mat_shape M (length depth) (?n - 1)"
    and E: "\<forall>r<length depth. \<forall>i<?n - 1. M ! r ! i =
              (if sum_thickness model (i + 1) \<le> depth ! r \<and> depth ! r < sum_thickness model (i + 2)
               then 1 - (depth ! r - sum_thickness model (i + 1)) / thickness model ! (i + 1)
               else if 1 \<le> i \<and> sum_thickness model i < depth ! r \<and> depth ! r \<le> sum_thickness model (i + 1)
               then (depth ! r - sum_thickness model i) / thickness model ! i
               else 0)"
    by blast
  have step: "S (Suc k) = S k + th k" if "k < ?n" for k
    using that len sum_thickness_Suc [of k model] by (simp add: S_def th_def)
  have thpos: "0 < th k" if "1 \<le> k" "k < ?n" for k
    using that pos len by (simp add: th_def)
  have entry: "M ! r ! i = u i - u (Suc i) \<and> 0 \<le> M ! r ! i \<and> M ! r ! i \<le> 1" if i: "i < ?n - 1" for i
  proof -
    have e: "M ! r ! i =
              (if S (i + 1) \<le> z \<and> z < S (i + 2)
               then 1 - (z - S (i + 1)) / th (i + 1)
               else if 1 \<le> i \<and> S i < z \<and> z \<le> S (i + 1)
               then (z - S i) / th i
               else 0)"
      using E [rule_format, OF r i] by (simp only: z_def S_def th_def)
    have s1: "S (i + 1) = S i + th i" using step [of i] i by simp
    have s2: "S (i + 2) = S (i + 1) + th (i + 1)" using step [of "i + 1"] i by simp
    have p2: "0 < th (i + 1)" using thpos [of "i + 1"] i by simp
    have frac: "0 \<le> a / t \<and> a / t \<le> 1 \<and> 0 \<le> 1 - a / t \<and> 1 - a / t \<le> 1"
      if "0 \<le> a" "a \<le> t" "0 < t" for a t :: real
      using that by simp
    show ?thesis
    proof (cases "i = 0")
      case True
      have z1: "S (i + 1) \<le> z" using lo True by (simp add: z_def S_def)
      have u0: "u i = 1" using True by (simp add: u_def)
      have n1: "\<not> 1 \<le> i" using True by simp
      show ?thesis
      proof (cases "z < S (i + 2)")
        case lt: True
        have v: "M ! r ! i = 1 - (z - S (i + 1)) / th (i + 1)" using e z1 lt by simp
        have u1: "u (Suc i) = (if z \<le> S (i + 1) then 0 else (z - S (i + 1)) / th (i + 1))"
          using lt by (simp add: u_def)
        have "z - S (i + 1) \<le> th (i + 1)" using lt s2 by simp
        from frac [of "z - S (i + 1)" "th (i + 1)"] this z1 p2
        have b: "0 \<le> 1 - (z - S (i + 1)) / th (i + 1) \<and> 1 - (z - S (i + 1)) / th (i + 1) \<le> 1"
          by simp
        have "z \<le> S (i + 1) \<Longrightarrow> z - S (i + 1) = 0" using z1 by simp
        then show ?thesis using v u0 u1 b by auto
      next
        case ge: False
        have v: "M ! r ! i = 0" using e n1 ge by simp
        have "S (i + 1) < z" using ge s2 p2 by simp
        then have u1: "u (Suc i) = 1" using ge by (simp add: u_def)
        show ?thesis using v u0 u1 by simp
      qed
    next
      case False
      then have p1: "0 < th i" using thpos [of i] i by simp
      have i1: "1 \<le> i" using False by simp
      have ui: "u i = (if z \<le> S i then 0 else if S (i + 1) \<le> z then 1 else (z - S i) / th i)"
        using False by (simp add: u_def)
      have ui1: "u (Suc i) = (if z \<le> S (i + 1) then 0 else if S (i + 2) \<le> z then 1
                              else (z - S (i + 1)) / th (i + 1))"
        by (simp add: u_def)
      consider "z \<le> S i" | "S i < z" "z < S (i + 1)" | "S (i + 1) \<le> z" "z < S (i + 2)" | "S (i + 2) \<le> z"
        by linarith
      then show ?thesis
      proof cases
        case 1
        then have "z < S (i + 1)" "z < S (i + 2)" using s1 s2 p1 p2 by simp_all
        with 1 e ui ui1 show ?thesis by simp
      next
        case 2
        then have v: "M ! r ! i = (z - S i) / th i" using e i1 s2 p2 by simp
        have "u i - u (Suc i) = (z - S i) / th i" using 2 ui ui1 by simp
        moreover have "0 \<le> (z - S i) / th i \<and> (z - S i) / th i \<le> 1"
          using frac [of "z - S i" "th i"] 2 s1 p1 by simp
        ultimately show ?thesis using v by simp
      next
        case 3
        then have v: "M ! r ! i = 1 - (z - S (i + 1)) / th (i + 1)" using e by simp
        have "S i < z" using 3 s1 p1 by simp
        then have a: "u i = 1" using ui 3 by simp
        have b: "u (Suc i) = (if z \<le> S (i + 1) then 0 else (z - S (i + 1)) / th (i + 1))"
          using ui1 3 by simp
        have c: "z \<le> S (i + 1) \<Longrightarrow> z - S (i + 1) = 0" using 3 by simp
        have "0 \<le> 1 - (z - S (i + 1)) / th (i + 1) \<and> 1 - (z - S (i + 1)) / th (i + 1) \<le> 1"
          using frac [of "z - S (i + 1)" "th (i + 1)"] 3 s2 p2 by simp
        then show ?thesis using v a b c by auto
      next
        case 4
        then have "S i < z" "S (i + 1) < z" using s1 s2 p1 p2 by simp_all
        with 4 e ui ui1 show ?thesis by simp
      qed
    qed
  qed
  have lenrow: "length (M ! r) = ?n - 1" using mat_shape_row [OF sh r] .
  have "sum_list (M ! r) = (\<Sum>i<?n - 1. M ! r ! i)"
    by (simp add: sum_list_sum_nth lenrow atLeast0LessThan)
  also have "\<dots> = (\<Sum>i<?n - 1. u i - u (Suc i))"
    using entry by simp
  also have "\<dots> = u 0 - u (?n - 1)"
    by (rule sum_lessThan_telescope')
  also have "\<dots> = 1"
    using hi n2 by (simp add: u_def z_def S_def)
  finally have total: "sum_list (M ! r) = 1" .
  have mono: "S j < S k" if "1 \<le> j" "j < k" "k \<le> ?n" for j k
    using that
  proof (induction k)
    case 0 then show ?case by simp
  next
    case (Suc k)
    have up: "S k < S (Suc k)" using step [of k] thpos [of k] Suc.prems by simp
    show ?case
    proof (cases "j = k")
      case True then show ?thesis using up by simp
    next
      case False
      then have "S j < S k" using Suc by simp
      then show ?thesis using up by simp
    qed
  qed
  define P where "P = (\<lambda>k. k < ?n - 1 \<and> S (k + 1) \<le> z)"
  define b where "b = (GREATEST k. P k)"
  have P0: "P 0" using lo n2 by (simp add: P_def z_def S_def)
  have bnd: "k \<le> ?n" if "P k" for k using that by (auto simp: P_def)
  have Pb: "P b" unfolding b_def using P0 bnd by (rule GreatestI_nat)
  have mx: "k \<le> b" if "P k" for k unfolding b_def using that bnd by (rule Greatest_le_nat)
  have b1: "b < ?n - 1" and zlo: "S (b + 1) \<le> z" using Pb by (simp_all add: P_def)
  have zhi: "z < S (b + 2)"
  proof (cases "b + 1 < ?n - 1")
    case True
    show ?thesis
    proof (rule ccontr)
      assume "\<not> z < S (b + 2)"
      then have "P (b + 1)" using True by (simp add: P_def)
      from mx [OF this] show False by simp
    qed
  next
    case False
    then have e: "b + 1 = ?n - 1" using b1 by simp
    have "S (b + 1) < S (b + 2)" using mono [of "b + 1" "b + 2"] b1 by simp
    moreover have "z \<le> S (b + 1)" using hi e by (simp add: z_def S_def)
    ultimately show ?thesis by simp
  qed
  have ent: "M ! r ! i =
              (if S (i + 1) \<le> z \<and> z < S (i + 2)
               then 1 - (z - S (i + 1)) / th (i + 1)
               else if 1 \<le> i \<and> S i < z \<and> z \<le> S (i + 1)
               then (z - S i) / th i
               else 0)" if i: "i < ?n - 1" for i
    using E [rule_format, OF r i] by (simp only: z_def S_def th_def)
  have vb: "M ! r ! b = 1 - (z - S (b + 1)) / th (b + 1)"
    using ent [OF b1] zlo zhi by simp
  have vb1: "M ! r ! (b + 1) = (z - S (b + 1)) / th (b + 1)" if lt: "b + 1 < ?n - 1"
  proof -
    have "S (b + 2) < S (b + 3)" using mono [of "b + 2" "b + 3"] lt by simp
    then have no: "\<not> S (b + 1 + 1) \<le> z" using zhi by simp
    show ?thesis
    proof (cases "S (b + 1) < z")
      case True
      then show ?thesis using ent [OF lt] no zhi by simp
    next
      case False
      then have "z = S (b + 1)" using zlo by simp
      then show ?thesis using ent [OF lt] no by simp
    qed
  qed
  have vlast: "M ! r ! b = 1" if e: "b + 1 = ?n - 1"
  proof -
    have "z \<le> S (b + 1)" using hi e by (simp add: z_def S_def)
    then have "z = S (b + 1)" using zlo by simp
    then show ?thesis using vb by simp
  qed
  have others: "M ! r ! i = 0" if i: "i < ?n - 1" and nb: "i \<noteq> b \<and> i \<noteq> b + 1" for i
  proof (cases "i < b")
    case True
    have "S (i + 1) < S (b + 1)" using mono [of "i + 1" "b + 1"] True b1 by simp
    then have a: "\<not> z \<le> S (i + 1)" using zlo by simp
    have "S (i + 2) \<le> S (b + 1)"
    proof (cases "i + 1 = b")
      case True then show ?thesis by simp
    next
      case False
      then have "1 \<le> i + 2" "i + 2 < b + 1" "b + 1 \<le> ?n" using True b1 by simp_all
      from mono [OF this] show ?thesis by simp
    qed
    then have c: "\<not> z < S (i + 2)" using zlo by simp
    show ?thesis using ent [OF i] a c by simp
  next
    case False
    then have ge: "b + 2 \<le> i" using nb by simp
    have "S (b + 2) \<le> S i"
    proof (cases "b + 2 = i")
      case True then show ?thesis by simp
    next
      case False
      then have "1 \<le> b + 2" "b + 2 < i" "i \<le> ?n" using ge i by simp_all
      from mono [OF this] show ?thesis by simp
    qed
    then have a: "\<not> S i < z" using zhi by simp
    have "S i < S (i + 1)" using mono [of i "i + 1"] ge i by simp
    then have c: "\<not> S (i + 1) \<le> z" using a by simp
    show ?thesis using ent [OF i] a c by simp
  qed
  have bracket: "\<exists>b<?n - 1.
              sum_thickness model (b + 1) \<le> depth ! r \<and> depth ! r < sum_thickness model (b + 2) \<and>
              M ! r ! b = 1 - (depth ! r - sum_thickness model (b + 1)) / thickness model ! (b + 1) \<and>
              (b + 1 < ?n - 1 \<longrightarrow>
                 M ! r ! (b + 1) = (depth ! r - sum_thickness model (b + 1)) / thickness model ! (b + 1)) \<and>
              (b + 1 = ?n - 1 \<longrightarrow> M ! r ! b = 1) \<and>
              (\<forall>i<?n - 1. i \<noteq> b \<and> i \<noteq> b + 1 \<longrightarrow> M ! r ! i = 0)"
    using b1 zlo zhi vb vb1 vlast others unfolding z_def S_def th_def by blast
  from M entry total bracket show ?thesis by blast
qed


theorem dm_ds_row_partition_of_unity_witness:
  "\<exists>M. calculate_dm_ds \<lparr>vsv = [3, 4, 5, 6], thickness = [0, 10, 20, 30], boundary_inds = []\<rparr>
          [5, 10, 35] = Inr M \<and>
       sum_list (M ! 0) = 1 \<and> M ! 0 ! 0 = 1 / 2 \<and> M ! 0 ! 1 = 1 / 2 \<and> M ! 0 ! 2 = 0"
proof -
  let ?m = "\<lparr>vsv = [3, 4, 5, 6], thickness = [0, 10, 20, 30], boundary_inds = []\<rparr>"
  let ?d = "[5, 10, 35] :: real list"
  have p: "\<forall>k. 1 \<le> k \<and> k < length (thickness ?m) \<longrightarrow> 0 < thickness ?m ! k"
    by (auto simp: less_Suc_eq numeral_eq_Suc)
  have l: "length (vsv ?m) = length (thickness ?m)" and n: "2 \<le> length (vsv ?m)"
    and r: "0 < length ?d" and lo: "sum_thickness ?m 1 \<le> ?d ! 0"
    and hi: "?d ! 0 \<le> sum_thickness ?m (length (vsv ?m) - 1)"
    by (simp_all add: sum_thickness_def numeral_eq_Suc)
  from dm_ds_row_partition_of_unity [OF l n p r lo hi]
  obtain M b where M: "calculate_dm_ds ?m ?d = Inr M" and s: "sum_list (M ! 0) = 1"
    and b': "b < length (vsv ?m) - 1" "sum_thickness ?m (b + 1) \<le> ?d ! 0"
    and v': "M ! 0 ! b = 1 - (?d ! 0 - sum_thickness ?m (b + 1)) / thickness ?m ! (b + 1)"
      "b + 1 < length (vsv ?m) - 1 \<longrightarrow>
         M ! 0 ! (b + 1) = (?d ! 0 - sum_thickness ?m (b + 1)) / thickness ?m ! (b + 1)"
      "\<forall>i<length (vsv ?m) - 1. i \<noteq> b \<and> i \<noteq> b + 1 \<longrightarrow> M ! 0 ! i = 0"
    by blast
  have b: "b < 3" "sum_thickness ?m (b + 1) \<le> 5" using b' by simp_all
  have v: "M ! 0 ! b = 1 - (5 - sum_thickness ?m (b + 1)) / thickness ?m ! (b + 1)"
      "b + 1 < 3 \<longrightarrow> M ! 0 ! (b + 1) = (5 - sum_thickness ?m (b + 1)) / thickness ?m ! (b + 1)"
      "\<forall>i<3. i \<noteq> b \<and> i \<noteq> b + 1 \<longrightarrow> M ! 0 ! i = 0"
    using v' by simp_all
  have "b = 0 \<or> b = 1 \<or> b = 2" using b(1) by auto
  then have b0: "b = 0" using b(2) by (auto simp: sum_thickness_def numeral_eq_Suc)
  have "M ! 0 ! 0 = 1 / 2" "M ! 0 ! 1 = 1 / 2" "M ! 0 ! 2 = 0"
    using v unfolding b0 by (simp_all add: sum_thickness_def)
  with M s show ?thesis by blast
qed

lemma getitem_nat_plus2:
  "getitem xs (int k + 2) = (if k + 2 < length xs then Inr (xs ! (k + 2)) else Inl IndexError)"
  using getitem_nat [of xs "k + 2"] by (simp add: add.commute)

lemma getitem_nat_pred:
  assumes "k < length xs"
  shows "getitem xs (int k - 1) = Inr (if k = 0 then last xs else xs ! (k - 1))"
proof (cases "k = 0")
  case True
  then have "xs \<noteq> []" using assms by auto
  then have "last xs = xs ! (length xs - 1)" by (rule last_conv_nth)
  moreover have "nat (int (length xs) - 1) = length xs - 1" by simp
  ultimately show ?thesis using True assms by (simp add: getitem_def)
next
  case False
  then have "int k - 1 = int (k - 1)" by simp
  then show ?thesis using False assms getitem_nat [of xs "k - 1"] by simp
qed

lemma shallower_t_effect:
  assumes sh: "mat_shape mat R C" and len: "length depth = R" and i: "i < C"
    and ib: "i < length (boundary_inds model)" "boundary_inds model ! i = ib"
    and wf: "ib < length (thickness model)" "length (vsv model) = length (thickness model)"
  shows "\<exists>mat'. convert_kernels_d_shallowerm_by_d_t model i depth mat = Inr mat' \<and>
           mat_shape mat' R C \<and>
           (\<forall>r<R. \<forall>c<C. mat' ! r ! c =
              (if c = i \<and> sum_thickness model ib < depth ! r \<and> depth ! r < sum_thickness model (ib + 1)
               then - (((vsv model ! ib - (if ib = 0 then last (vsv model) else vsv model ! (ib - 1)))
                        * (depth ! r - sum_thickness model ib)) / (thickness model ! ib) ^ 2)
               else mat ! r ! c))"
proof -
  let ?g = "\<lambda>r. - (((vsv model ! ib - (if ib = 0 then last (vsv model) else vsv model ! (ib - 1)))
                        * (depth ! r - sum_thickness model ib)) / (thickness model ! ib) ^ 2)"
  let ?rs = "np_where (\<lambda>z. sum_thickness model ib < z \<and> z < sum_thickness model (ib + 1)) depth"
  have rs: "\<forall>r\<in>set ?rs. r < R" using len by (simp add: np_where_set)
  from for_each_assign [OF sh i rs, of ?g]
  obtain mat' where a: "for_each ?rs (\<lambda>r m. setitem2 m r i (?g r)) mat = Inr mat'"
    and b: "mat_shape mat' R C"
    and c: "\<forall>r<R. \<forall>c'<C. mat' ! r ! c' = (if r \<in> set ?rs \<and> c' = i then ?g r else mat ! r ! c')"
    by blast
  have g1: "getitem (vsv model) (int ib) = Inr (vsv model ! ib)"
    using wf by (simp add: getitem_nat)
  have g2: "getitem (vsv model) (int ib - 1) =
              Inr (if ib = 0 then last (vsv model) else vsv model ! (ib - 1))"
    using wf by (intro getitem_nat_pred) simp
  have "convert_kernels_d_shallowerm_by_d_t model i depth mat = Inr mat'"
    using a ib wf(1) g1 g2
    by (simp add: convert_kernels_d_shallowerm_by_d_t_def Let_def getitem_nat)
  moreover have "\<forall>r<R. \<forall>c<C. mat' ! r ! c =
              (if c = i \<and> sum_thickness model ib < depth ! r \<and> depth ! r < sum_thickness model (ib + 1)
               then ?g r else mat ! r ! c)"
    using c len by (auto simp: np_where_set)
  ultimately show ?thesis using b by blast
qed

lemma within_t_effect:
  assumes sh: "mat_shape mat R C" and len: "length depth = R" and i: "i < C"
    and ib: "i < length (boundary_inds model)" "boundary_inds model ! i = ib"
    and wf: "ib + 1 < length (thickness model)" "length (vsv model) = length (thickness model)"
  shows "\<exists>mat'. convert_kernels_d_withinboundarym_by_d_t model i depth mat = Inr mat' \<and>
           mat_shape mat' R C \<and>
           (\<forall>r<R. \<forall>c<C. mat' ! r ! c =
              (if c = i \<and> sum_thickness model (ib + 1) \<le> depth ! r \<and> depth ! r < sum_thickness model (ib + 2)
               then - ((vsv model ! (ib + 1) - vsv model ! ib) / thickness model ! (ib + 1))
               else mat ! r ! c))"
proof -
  let ?g = "\<lambda>r::nat. - ((vsv model ! (ib + 1) - vsv model ! ib) / thickness model ! (ib + 1))"
  let ?rs = "np_where (\<lambda>z. sum_thickness model (ib + 1) \<le> z \<and> z < sum_thickness model (ib + 2)) depth"
  have rs: "\<forall>r\<in>set ?rs. r < R" using len by (simp add: np_where_set)
  from for_each_assign [OF sh i rs, of ?g]
  obtain mat' where a: "for_each ?rs (\<lambda>r m. setitem2 m r i (?g r)) mat = Inr mat'"
    and b: "mat_shape mat' R C"
    and c: "\<forall>r<R. \<forall>c'<C. mat' ! r ! c' = (if r \<in> set ?rs \<and> c' = i then ?g r else mat ! r ! c')"
    by blast
  have "convert_kernels_d_withinboundarym_by_d_t model i depth mat = Inr mat'"
    using a ib wf
    by (simp add: convert_kernels_d_withinboundarym_by_d_t_def Let_def getitem_nat getitem_nat_Suc)
  moreover have "\<forall>r<R. \<forall>c<C. mat' ! r ! c =
              (if c = i \<and> sum_thickness model (ib + 1) \<le> depth ! r \<and> depth ! r < sum_thickness model (ib + 2)
               then ?g r else mat ! r ! c)"
    using c len by (auto simp: np_where_set)
  ultimately show ?thesis using b by blast
qed

lemma deeper_t_effect:
  assumes sh: "mat_shape mat R C" and len: "length depth = R" and i: "i < C"
    and ib: "i < length (boundary_inds model)" "boundary_inds model ! i = ib"
    and wf: "ib + 1 < length (thickness model)" "length (vsv model) = length (thickness model)"
  shows "\<exists>mat'. convert_kernels_d_deeperm_by_d_t model i depth mat = Inr mat' \<and>
           mat_shape mat' R C \<and>
           (\<forall>r<R. \<forall>c<C. mat' ! r ! c =
              (if c = i \<and> sum_thickness model (ib + 2) \<le> depth ! r \<and> depth ! r < sum_thickness model (ib + 3)
               then (vsv model ! (ib + 2) - vsv model ! (ib + 1)) * (depth ! r - sum_thickness model (ib + 3))
                    / (thickness model ! ib
                        - (sum_thickness model (ib + 3) - sum_thickness model ib - thickness model ! (ib + 1))) ^ 2
               else mat ! r ! c))"
proof (cases "ib + 2 < length (thickness model)")
  case True
  let ?g = "\<lambda>r. (vsv model ! (ib + 2) - vsv model ! (ib + 1)) * (depth ! r - sum_thickness model (ib + 3))
                    / (thickness model ! ib
                        - (sum_thickness model (ib + 3) - sum_thickness model ib - thickness model ! (ib + 1))) ^ 2"
  let ?rs = "np_where (\<lambda>z. sum_thickness model (ib + 2) \<le> z \<and> z < sum_thickness model (ib + 3)) depth"
  have rs: "\<forall>r\<in>set ?rs. r < R" using len by (simp add: np_where_set)
  from for_each_assign [OF sh i rs, of ?g]
  obtain mat' where a: "for_each ?rs (\<lambda>r m. setitem2 m r i (?g r)) mat = Inr mat'"
    and b: "mat_shape mat' R C"
    and c: "\<forall>r<R. \<forall>c'<C. mat' ! r ! c' = (if r \<in> set ?rs \<and> c' = i then ?g r else mat ! r ! c')"
    by blast
  have "convert_kernels_d_deeperm_by_d_t model i depth mat = Inr mat'"
    using a ib wf True
    by (simp add: convert_kernels_d_deeperm_by_d_t_def Let_def getitem_nat getitem_nat_Suc
          getitem_nat_plus2)
  moreover have "\<forall>r<R. \<forall>c<C. mat' ! r ! c =
              (if c = i \<and> sum_thickness model (ib + 2) \<le> depth ! r \<and> depth ! r < sum_thickness model (ib + 3)
               then ?g r else mat ! r ! c)"
    using c len by (auto simp: np_where_set)
  ultimately show ?thesis using b by blast
next
  case False
  then have eq: "sum_thickness model (ib + 3) = sum_thickness model (ib + 2)"
    using sum_thickness_beyond [of model "ib + 2" 1] by (simp add: numeral_3_eq_3)
  then have "np_where (\<lambda>z. sum_thickness model (ib + 2) \<le> z \<and> z < sum_thickness model (ib + 3)) depth = []"
    by (simp add: np_where_def)
  then have "convert_kernels_d_deeperm_by_d_t model i depth mat = Inr mat"
    using ib wf
    by (simp add: convert_kernels_d_deeperm_by_d_t_def Let_def getitem_nat getitem_nat_Suc)
  then show ?thesis using sh eq by simp
qed

lemma calculate_dm_dt_entries:
  assumes len: "length (vsv model) = length (thickness model)"
    and wf: "\<forall>j<length (boundary_inds model). boundary_inds model ! j + 1 < length (thickness model)"
  shows "\<exists>M. calculate_dm_dt model depth = Inr M \<and>
           mat_shape M (length depth) (length (boundary_inds model)) \<and>
           (\<forall>r<length depth. \<forall>i<length (boundary_inds model). \<forall>ib. boundary_inds model ! i = ib \<longrightarrow>
              M ! r ! i =
              (if sum_thickness model (ib + 2) \<le> depth ! r \<and> depth ! r < sum_thickness model (ib + 3)
               then (vsv model ! (ib + 2) - vsv model ! (ib + 1)) * (depth ! r - sum_thickness model (ib + 3))
                    / (thickness model ! ib
                        - (sum_thickness model (ib + 3) - sum_thickness model ib - thickness model ! (ib + 1))) ^ 2
               else if sum_thickness model (ib + 1) \<le> depth ! r \<and> depth ! r < sum_thickness model (ib + 2)
               then - ((vsv model ! (ib + 1) - vsv model ! ib) / thickness model ! (ib + 1))
               else if sum_thickness model ib < depth ! r \<and> depth ! r < sum_thickness model (ib + 1)
               then - (((vsv model ! ib - (if ib = 0 then last (vsv model) else vsv model ! (ib - 1)))
                        * (depth ! r - sum_thickness model ib)) / (thickness model ! ib) ^ 2)
               else 0))"
proof -
  let ?R = "length depth" and ?C = "length (boundary_inds model)"
  let ?Z = "replicate ?R (replicate ?C (0::real))"
  let ?V = "\<lambda>ib r old.
              (if sum_thickness model (ib + 2) \<le> depth ! r \<and> depth ! r < sum_thickness model (ib + 3)
               then (vsv model ! (ib + 2) - vsv model ! (ib + 1)) * (depth ! r - sum_thickness model (ib + 3))
                    / (thickness model ! ib
                        - (sum_thickness model (ib + 3) - sum_thickness model ib - thickness model ! (ib + 1))) ^ 2
               else if sum_thickness model (ib + 1) \<le> depth ! r \<and> depth ! r < sum_thickness model (ib + 2)
               then - ((vsv model ! (ib + 1) - vsv model ! ib) / thickness model ! (ib + 1))
               else if sum_thickness model ib < depth ! r \<and> depth ! r < sum_thickness model (ib + 1)
               then - (((vsv model ! ib - (if ib = 0 then last (vsv model) else vsv model ! (ib - 1)))
                        * (depth ! r - sum_thickness model ib)) / (thickness model ! ib) ^ 2)
               else old)"
  let ?F = "\<lambda>i. ?V (boundary_inds model ! i)"
  let ?body = "\<lambda>i mat. case convert_kernels_d_shallowerm_by_d_t model i depth mat of
                 Inl e \<Rightarrow> Inl e
               | Inr mat1 \<Rightarrow>
              (case convert_kernels_d_withinboundarym_by_d_t model i depth mat1 of
                 Inl e \<Rightarrow> Inl e
               | Inr mat2 \<Rightarrow> convert_kernels_d_deeperm_by_d_t model i depth mat2)"
  have zeros: "np_zeros ?R (int ?C) = Inr ?Z" by (simp add: np_zeros_def)
  have shZ: "mat_shape ?Z ?R ?C" by (rule mat_shape_zeros)
  have body: "\<exists>m'. ?body i m = Inr m' \<and> mat_shape m' ?R ?C \<and>
        (\<forall>r<?R. \<forall>c<?C. m' ! r ! c = (if c = i then ?F i r (m ! r ! c) else m ! r ! c))"
    if "i \<in> set [0..<?C]" "mat_shape m ?R ?C" for i m
  proof -
    define ib where "ib = boundary_inds model ! i"
    have i: "i < ?C" using that(1) by simp
    have ib: "boundary_inds model ! i = ib" by (simp add: ib_def)
    have w1: "ib + 1 < length (thickness model)" using wf i by (simp add: ib_def)
    then have w0: "ib < length (thickness model)" by simp
    from shallower_t_effect [OF that(2) refl i i ib w0 len]
    obtain m1 where m1: "convert_kernels_d_shallowerm_by_d_t model i depth m = Inr m1"
        "mat_shape m1 ?R ?C"
        "\<forall>r<?R. \<forall>c<?C. m1 ! r ! c =
              (if c = i \<and> sum_thickness model ib < depth ! r \<and> depth ! r < sum_thickness model (ib + 1)
               then - (((vsv model ! ib - (if ib = 0 then last (vsv model) else vsv model ! (ib - 1)))
                        * (depth ! r - sum_thickness model ib)) / (thickness model ! ib) ^ 2)
               else m ! r ! c)"
      by blast
    from within_t_effect [OF m1(2) refl i i ib w1 len]
    obtain m2 where m2: "convert_kernels_d_withinboundarym_by_d_t model i depth m1 = Inr m2"
        "mat_shape m2 ?R ?C"
        "\<forall>r<?R. \<forall>c<?C. m2 ! r ! c =
              (if c = i \<and> sum_thickness model (ib + 1) \<le> depth ! r \<and> depth ! r < sum_thickness model (ib + 2)
               then - ((vsv model ! (ib + 1) - vsv model ! ib) / thickness model ! (ib + 1))
               else m1 ! r ! c)"
      by blast
    from deeper_t_effect [OF m2(2) refl i i ib w1 len]
    obtain m3 where m3: "convert_kernels_d_deeperm_by_d_t model i depth m2 = Inr m3"
        "mat_shape m3 ?R ?C"
        "\<forall>r<?R. \<forall>c<?C. m3 ! r ! c =
              (if c = i \<and> sum_thickness model (ib + 2) \<le> depth ! r \<and> depth ! r < sum_thickness model (ib + 3)
               then (vsv model ! (ib + 2) - vsv model ! (ib + 1)) * (depth ! r - sum_thickness model (ib + 3))
                    / (thickness model ! ib
                        - (sum_thickness model (ib + 3) - sum_thickness model ib - thickness model ! (ib + 1))) ^ 2
               else m2 ! r ! c)"
      by blast
    have "\<forall>r<?R. \<forall>c<?C. m3 ! r ! c = (if c = i then ?V ib r (m ! r ! c) else m ! r ! c)"
      using m1(3) m2(3) m3(3) by auto
    then have "\<forall>r<?R. \<forall>c<?C. m3 ! r ! c = (if c = i then ?F i r (m ! r ! c) else m ! r ! c)"
      by (simp only: ib)
    with m1(1) m2(1) m3(1,2) show ?thesis by auto
  qed
  from for_each_columns [of "[0..<?C]" ?R ?C ?body ?F ?Z, OF body shZ]
  obtain M where M: "for_each [0..<?C] ?body ?Z = Inr M" "mat_shape M ?R ?C"
      "\<forall>r<?R. \<forall>c<?C. M ! r ! c =
          (if c \<in> set [0..<?C] then ?F c r (?Z ! r ! c) else ?Z ! r ! c)"
    by auto
  have "calculate_dm_dt model depth = Inr M"
    using zeros M(1) by (simp add: calculate_dm_dt_def)
  moreover have "\<forall>r<?R. \<forall>i<?C. \<forall>ib. boundary_inds model ! i = ib \<longrightarrow> M ! r ! i = ?V ib r 0"
  proof (intro allI impI)
    fix r i ib assume r: "r < ?R" and i: "i < ?C" and ib: "boundary_inds model ! i = ib"
    have z: "?Z ! r ! i = 0" using r i by simp
    have "i \<in> set [0..<?C]" using i by simp
    then have "M ! r ! i = ?F i r (?Z ! r ! i)" using M(3) r i by simp
    then show "M ! r ! i = ?V ib r 0" by (simp only: z ib)
  qed
  ultimately show ?thesis using M(2) by blast
qed

section \<open>Claims about dm/dt\<close>

text \<open>
  Claim C1. Let \<open>ib = boundary_inds[i]\<close> be a boundary with a node above it (\<open>ib \<ge> 1\<close>),
  overlying thickness \<open>t\<^sub>i = thickness[ib] > 0\<close> and width \<open>w\<^sub>i = thickness[ib + 1] > 0\<close>, in a
  model whose arrays have the same length and whose boundaries all have their base node
  inside the arrays. With \<open>y\<^sub>k = sum_thickness model (k + 1)\<close>, column \<open>i\<close> of the matrix
  returned by \<open>calculate_dm_dt\<close> is, at the card depth \<open>z = depth ! r\<close>:
  \<open>-(s\<^sub>i\<^sub>b - s\<^sub>i\<^sub>b\<^sub>-\<^sub>1) (z - y\<^sub>i\<^sub>b\<^sub>-\<^sub>1) / t\<^sub>i\<^sup>2\<close> for \<open>y\<^sub>i\<^sub>b\<^sub>-\<^sub>1 < z < y\<^sub>i\<^sub>b\<close>; the constant
  \<open>-(s\<^sub>i\<^sub>b\<^sub>+\<^sub>1 - s\<^sub>i\<^sub>b) / w\<^sub>i\<close> for \<open>y\<^sub>i\<^sub>b \<le> z < y\<^sub>i\<^sub>b\<^sub>+\<^sub>1\<close>;
  \<open>(s\<^sub>i\<^sub>b\<^sub>+\<^sub>2 - s\<^sub>i\<^sub>b\<^sub>+\<^sub>1) (z - y\<^sub>i\<^sub>b\<^sub>+\<^sub>2) / (t\<^sub>i - (y\<^sub>i\<^sub>b\<^sub>+\<^sub>2 - y\<^sub>i\<^sub>b\<^sub>-\<^sub>1 - w\<^sub>i))\<^sup>2\<close> for
  \<open>y\<^sub>i\<^sub>b\<^sub>+\<^sub>1 \<le> z < y\<^sub>i\<^sub>b\<^sub>+\<^sub>2\<close>; and 0 at every card depth in none of the three ranges.
\<close>

theorem dm_dt_column_formula:
  assumes len: "length (vsv model) = length (thickness model)"
    and wf: "\<forall>j<length (boundary_inds model). boundary_inds model ! j + 1 < length (thickness model)"
    and i: "i < length (boundary_inds model)"
    and ib: "boundary_inds model ! i = ib" "1 \<le> ib"
    and t_i: "0 < thickness model ! ib"
    and w_i: "0 < thickness model ! (ib + 1)"
    and r: "r < length depth"
  shows "\<exists>M. calculate_dm_dt model depth = Inr M \<and>
     (sum_thickness model ib < depth ! r \<and> depth ! r < sum_thickness model (ib + 1)
        \<longrightarrow> M ! r ! i = - ((vsv model ! ib - vsv model ! (ib - 1)) * (depth ! r - sum_thickness model ib)
                          / (thickness model ! ib) ^ 2)) \<and>
     (sum_thickness model (ib + 1) \<le> depth ! r \<and> depth ! r < sum_thickness model (ib + 2)
        \<longrightarrow> M ! r ! i = - ((vsv model ! (ib + 1) - vsv model ! ib) / thickness model ! (ib + 1))) \<and>
     (sum_thickness model (ib + 2) \<le> depth ! r \<and> depth ! r < sum_thickness model (ib + 3)
        \<longrightarrow> M ! r ! i = (vsv model ! (ib + 2) - vsv model ! (ib + 1)) * (depth ! r - sum_thickness model (ib + 3))
                          / (thickness model ! ib
                              - (sum_thickness model (ib + 3) - sum_thickness model ib
                                   - thickness model ! (ib + 1))) ^ 2) \<and>
     (\<not> (sum_thickness model ib < depth ! r \<and> depth ! r < sum_thickness model (ib + 1)) \<and>
      \<not> (sum_thickness model (ib + 1) \<le> depth ! r \<and> depth ! r < sum_thickness model (ib + 2)) \<and>
      \<not> (sum_thickness model (ib + 2) \<le> depth ! r \<and> depth ! r < sum_thickness model (ib + 3))
        \<longrightarrow> M ! r ! i = 0)"
proof -
  from calculate_dm_dt_entries [OF len wf, of depth]
  obtain M where M: "calculate_dm_dt model depth = Inr M"
    and E: "\<forall>r<length depth. \<forall>i<length (boundary_inds model). \<forall>ib. boundary_inds model ! i = ib \<longrightarrow>
              M ! r ! i =
              (if sum_thickness model (ib + 2) \<le> depth ! r \<and> depth ! r < sum_thickness model (ib + 3)
               then (vsv model ! (ib + 2) - vsv model ! (ib + 1)) * (depth ! r - sum_thickness model (ib + 3))
                    / (thickness model ! ib
                        - (sum_thickness model (ib + 3) - sum_thickness model ib - thickness model ! (ib + 1))) ^ 2
               else if sum_thickness model (ib + 1) \<le> depth ! r \<and> depth ! r < sum_thickness model (ib + 2)
               then - ((vsv model ! (ib + 1) - vsv model ! ib) / thickness model ! (ib + 1))
               else if sum_thickness model ib < depth ! r \<and> depth ! r < sum_thickness model (ib + 1)
               then - (((vsv model ! ib - (if ib = 0 then last (vsv model) else vsv model ! (ib - 1)))
                        * (depth ! r - sum_thickness model ib)) / (thickness model ! ib) ^ 2)
               else 0)"
    by blast
  note e = E [rule_format, OF r i ib(1)]
  have b1: "ib + 1 < length (thickness model)" using wf i ib(1) by auto
  have s1: "sum_thickness model (ib + 1) = sum_thickness model ib + thickness model ! ib"
    using sum_thickness_Suc [of ib model] b1 by simp
  have s2: "sum_thickness model (ib + 2) = sum_thickness model (ib + 1) + thickness model ! (ib + 1)"
    using sum_thickness_Suc [of "ib + 1" model] b1 by simp
  have s3: "sum_thickness model (ib + 2) \<le> sum_thickness model (ib + 3)"
    if "sum_thickness model (ib + 2) \<le> z" "z < sum_thickness model (ib + 3)" for z
    using that by simp
  have nz: "ib \<noteq> 0" using ib(2) by simp
  have 1: "sum_thickness model ib < depth ! r \<and> depth ! r < sum_thickness model (ib + 1)
        \<longrightarrow> M ! r ! i = - ((vsv model ! ib - vsv model ! (ib - 1)) * (depth ! r - sum_thickness model ib)
                          / (thickness model ! ib) ^ 2)"
    using e s1 s2 w_i nz by auto
  have 2: "sum_thickness model (ib + 1) \<le> depth ! r \<and> depth ! r < sum_thickness model (ib + 2)
        \<longrightarrow> M ! r ! i = - ((vsv model ! (ib + 1) - vsv model ! ib) / thickness model ! (ib + 1))"
    using e s1 s2 w_i by auto
  have 3: "sum_thickness model (ib + 2) \<le> depth ! r \<and> depth ! r < sum_thickness model (ib + 3)
        \<longrightarrow> M ! r ! i = (vsv model ! (ib + 2) - vsv model ! (ib + 1)) * (depth ! r - sum_thickness model (ib + 3))
                          / (thickness model ! ib
                              - (sum_thickness model (ib + 3) - sum_thickness model ib
                                   - thickness model ! (ib + 1))) ^ 2"
    using e by simp
  have 4: "\<not> (sum_thickness model ib < depth ! r \<and> depth ! r < sum_thickness model (ib + 1)) \<and>
      \<not> (sum_thickness model (ib + 1) \<le> depth ! r \<and> depth ! r < sum_thickness model (ib + 2)) \<and>
      \<not> (sum_thickness model (ib + 2) \<le> depth ! r \<and> depth ! r < sum_thickness model (ib + 3))
        \<longrightarrow> M ! r ! i = 0"
    using e by simp
  from M 1 2 3 4 show ?thesis by blast
qed

theorem dm_dt_column_formula_witness:
  "\<exists>M. calculate_dm_dt \<lparr>vsv = [3, 4, 5, 6, 7], thickness = [0, 10, 20, 5, 10], boundary_inds = [2]\<rparr>
          [5, 20, 32, 40] = Inr M \<and>
       M ! 0 ! 0 = 0 \<and> M ! 1 ! 0 = - (1 / 40) \<and> M ! 2 ! 0 = - (1 / 5) \<and> M ! 3 ! 0 = - (1 / 20)"
proof -
  let ?m = "\<lparr>vsv = [3, 4, 5, 6, 7], thickness = [0, 10, 20, 5, 10], boundary_inds = [2]\<rparr>"
  let ?d = "[5, 20, 32, 40] :: real list"
  have l: "length (vsv ?m) = length (thickness ?m)" by simp
  have w: "\<forall>j<length (boundary_inds ?m). boundary_inds ?m ! j + 1 < length (thickness ?m)" by simp
  have i: "0 < length (boundary_inds ?m)" and ib: "boundary_inds ?m ! 0 = 2" "1 \<le> (2::nat)"
    and t: "0 < thickness ?m ! 2" and w': "0 < thickness ?m ! (2 + 1)"
    by simp_all
  note th = dm_dt_column_formula [of ?m 0 2 _ ?d, OF l w i ib t w']
  have a: "\<exists>M. calculate_dm_dt ?m ?d = Inr M \<and> M ! 0 ! 0 = 0"
    using th [of 0] by (auto simp: sum_thickness_def)
  have b: "\<exists>M. calculate_dm_dt ?m ?d = Inr M \<and> M ! 1 ! 0 = - (1 / 40)"
    using th [of 1] by (auto simp: sum_thickness_def)
  have c: "\<exists>M. calculate_dm_dt ?m ?d = Inr M \<and> M ! 2 ! 0 = - (1 / 5)"
    using th [of 2] by (auto simp: sum_thickness_def)
  have d: "\<exists>M. calculate_dm_dt ?m ?d = Inr M \<and> M ! 3 ! 0 = - (1 / 20)"
    using th [of 3] by (auto simp: sum_thickness_def)
  from a b c d show ?thesis by auto
qed

section \<open>Shape of the assembled Jacobian\<close>
























text \<open>Where a card depth lies in one of the ranges that the column fillers write, the
  denominator of the value written there is not zero: a layer of zero thickness has an
  empty range. So no entry of dm/ds or dm/dt comes from a division by zero.\<close>

lemma written_entries_have_nonzero_denominators:
  fixes model :: InversionModel and z :: real
  shows "sum_thickness model i < z \<and> z \<le> sum_thickness model (i + 1)
           \<longrightarrow> thickness model ! i \<noteq> 0"
    and "sum_thickness model (i + 1) \<le> z \<and> z < sum_thickness model (i + 2)
           \<longrightarrow> thickness model ! (i + 1) \<noteq> 0"
    and "sum_thickness model (i + 2) \<le> z \<and> z < sum_thickness model (i + 3)
           \<longrightarrow> thickness model ! i
                 - (sum_thickness model (i + 3) - sum_thickness model i - thickness model ! (i + 1)) \<noteq> 0"
proof -
  have step: "sum_thickness model (Suc k) =
      (if k < length (thickness model) then sum_thickness model k + thickness model ! k
       else sum_thickness model k)" for k
    using sum_thickness_Suc [of k model] sum_thickness_beyond [of model k 1] by simp
  show "sum_thickness model i < z \<and> z \<le> sum_thickness model (i + 1)
           \<longrightarrow> thickness model ! i \<noteq> 0"
    using step [of i] by (auto split: if_splits)
  show "sum_thickness model (i + 1) \<le> z \<and> z < sum_thickness model (i + 2)
           \<longrightarrow> thickness model ! (i + 1) \<noteq> 0"
    using step [of "i + 1"] by (auto split: if_splits)
  have 3: "sum_thickness model (i + 3) = sum_thickness model (Suc (i + 2))" by (simp add: numeral_3_eq_3)
  have 2: "sum_thickness model (i + 2) = sum_thickness model (Suc (i + 1))" by simp
  have 1: "sum_thickness model (i + 1) = sum_thickness model (Suc i)" by simp
  show "sum_thickness model (i + 2) \<le> z \<and> z < sum_thickness model (i + 3)
           \<longrightarrow> thickness model ! i
                 - (sum_thickness model (i + 3) - sum_thickness model i - thickness model ! (i + 1)) \<noteq> 0"
    unfolding 3 2 using step [of "i + 2"] step [of "i + 1"] step [of i]
    by (auto split: if_splits)
qed

section \<open>Claims about the assembled Jacobian\<close>

text \<open>
  Claim C7 (shape of the Jacobian). For a table with at least two distinct periods the
  lemma \<open>build_partial_derivatives_matrix_shape\<close> above gives a two-dimensional array with
  one row per period and \<open>len(vsv) - 1 + len(boundary_inds)\<close> columns. For a table with a
  single period the loop of \<open>build_MINEOS_G_matrix\<close> never runs, \<open>np.vstack\<close> is never
  called, and the product of the one-dimensional \<open>G_MINEOS\<close> with dm/dp is a
  one-dimensional array: it has no row dimension, and its numpy shape is \<open>(2,)\<close> for the
  two-column model below, not \<open>(1, 2)\<close> as the docstring of the function and the claim say.
\<close>

theorem single_period_jacobian_is_one_dimensional:
  "build_partial_derivatives_matrix
     [\<lparr>k_period = 20, k_type = ''Rayleigh'', k_z = 5, k_vsv = 1, k_vsh = 0, k_vpv = 1, k_vph = 0, k_eta = 0\<rparr>,
      \<lparr>k_period = 20, k_type = ''Rayleigh'', k_z = 15, k_vsv = 2, k_vsh = 0, k_vpv = 0, k_vph = 1, k_eta = 0\<rparr>]
     \<lparr>vsv = [3, 4, 5], thickness = [0, 10, 20], boundary_inds = []\<rparr>
     \<lparr>boundary_depths = [], boundary_depth_uncertainty = [], boundary_widths = [],
        boundary_vsv = [], depth_limits = [0, 30], min_layer_thickness = 6,
        vsv_vsh_ratio = 1, vpv_vsv_ratio = 2, vpv_vph_ratio = 1\<rparr>
   = Inr (Arr1 [3 / 2, 9 / 2])"
  by code_simp




text \<open>
  Claim C8. The matrix returned by \<open>scale_dvsv_dp_to_other_variables\<close> for a dVsv/dp matrix
  of \<open>n\<close> rows has \<open>5 n\<close> rows, the blocks Vsv, Vsh, Vpv, Vph and Eta in this order. Entry
  by entry, the Vsv block is the given matrix, the Vsh block is the Vsv block divided by
  \<open>vsv_vsh_ratio\<close>, the Vpv block is the Vsv block times \<open>vpv_vsv_ratio\<close>, the Vph block is
  the Vpv block divided by \<open>vpv_vph_ratio\<close>, and the Eta block is zero. The two ratios that
  divide are taken non-zero: a numpy division by zero gives \<open>inf\<close> or \<open>nan\<close>, which the
  real numbers do not have.
\<close>

theorem scale_blocks:
  assumes "vsv_vsh_ratio setup_model \<noteq> 0" "vpv_vph_ratio setup_model \<noteq> 0"
    and r: "r < length dvsv_dp_mat" and c: "c < length (dvsv_dp_mat ! r)"
  shows "length (scale_dvsv_dp_to_other_variables dvsv_dp_mat setup_model) = 5 * length dvsv_dp_mat \<and>
    scale_dvsv_dp_to_other_variables dvsv_dp_mat setup_model ! r ! c = dvsv_dp_mat ! r ! c \<and>
    scale_dvsv_dp_to_other_variables dvsv_dp_mat setup_model ! (length dvsv_dp_mat + r) ! c
      = dvsv_dp_mat ! r ! c / vsv_vsh_ratio setup_model \<and>
    scale_dvsv_dp_to_other_variables dvsv_dp_mat setup_model ! (2 * length dvsv_dp_mat + r) ! c
      = dvsv_dp_mat ! r ! c * vpv_vsv_ratio setup_model \<and>
    scale_dvsv_dp_to_other_variables dvsv_dp_mat setup_model ! (3 * length dvsv_dp_mat + r) ! c
      = scale_dvsv_dp_to_other_variables dvsv_dp_mat setup_model ! (2 * length dvsv_dp_mat + r) ! c
          / vpv_vph_ratio setup_model \<and>
    scale_dvsv_dp_to_other_variables dvsv_dp_mat setup_model ! (4 * length dvsv_dp_mat + r) ! c = 0"
proof -
  let ?n = "length dvsv_dp_mat"
  let ?S = "scale_dvsv_dp_to_other_variables dvsv_dp_mat setup_model"
  let ?B1 = "map (map (\<lambda>x. x / vsv_vsh_ratio setup_model)) dvsv_dp_mat"
  let ?B2 = "map (map (\<lambda>x. x * vpv_vsv_ratio setup_model)) dvsv_dp_mat"
  let ?B3 = "map (map (\<lambda>x. x * vpv_vsv_ratio setup_model / vpv_vph_ratio setup_model)) dvsv_dp_mat"
  let ?B4 = "map (map (\<lambda>_. 0::real)) dvsv_dp_mat"
  have S: "?S = dvsv_dp_mat @ ?B1 @ ?B2 @ ?B3 @ ?B4"
    by (simp add: scale_dvsv_dp_to_other_variables_def)
  have skip: "(a @ rest) ! (?n + k) = rest ! k" if "length a = ?n" for a rest :: matrix and k
    using that nth_append_length_plus [of a rest k] by simp
  have here: "(a @ rest) ! r = a ! r" if "length a = ?n" for a rest :: matrix
    using that r by (simp add: nth_append)
  have 0: "?S ! r = dvsv_dp_mat ! r" by (simp only: S here)
  have 1: "?S ! (?n + r) = ?B1 ! r" by (simp only: S) (simp add: skip here)
  have "?S ! (?n + (?n + r)) = ?B2 ! r" by (simp only: S) (simp add: skip here)
  then have 2: "?S ! (2 * ?n + r) = ?B2 ! r" by (simp add: mult_2 add.assoc)
  have "?S ! (?n + (?n + (?n + r))) = ?B3 ! r" by (simp only: S) (simp add: skip here)
  then have 3: "?S ! (3 * ?n + r) = ?B3 ! r" by (simp add: numeral_3_eq_3 add.assoc)
  have "?S ! (?n + (?n + (?n + (?n + r)))) = ?B4 ! r" by (simp only: S) (simp add: skip here)
  moreover have "4 * ?n + r = ?n + (?n + (?n + (?n + r)))" by simp
  ultimately have 4: "?S ! (4 * ?n + r) = ?B4 ! r" by (simp only:)
  have len: "length ?S = 5 * ?n" by (simp add: S)
  show ?thesis
    using r c by (simp only: len 0 1 2 3 4) simp
qed

theorem scale_blocks_witness:
  "scale_dvsv_dp_to_other_variables [[6, 8]]
     \<lparr>boundary_depths = [], boundary_depth_uncertainty = [], boundary_widths = [],
        boundary_vsv = [], depth_limits = [0, 30], min_layer_thickness = 6,
        vsv_vsh_ratio = 2, vpv_vsv_ratio = 7 / 4, vpv_vph_ratio = 1\<rparr> ! (1 + 0) ! 1 = 8 / 2"
proof -
  let ?s = "\<lparr>boundary_depths = [], boundary_depth_uncertainty = [], boundary_widths = [],
        boundary_vsv = [], depth_limits = [0, 30], min_layer_thickness = 6,
        vsv_vsh_ratio = 2, vpv_vsv_ratio = 7 / 4, vpv_vph_ratio = 1\<rparr>"
  have "vsv_vsh_ratio ?s \<noteq> 0" "vpv_vph_ratio ?s \<noteq> 0" by simp_all
  from scale_blocks [OF this, of 0 "[[6, 8]]" 1] show ?thesis by simp
qed

section \<open>Invariants of the loop that builds the starting model\<close>

lemma for_each_append:
  "for_each (xs @ ys) body s =
     (case for_each xs body s of Inl e \<Rightarrow> Inl e | Inr s' \<Rightarrow> for_each ys body s')"
  by (induction xs arbitrary: s) (auto split: sum.splits)

text \<open>A loop over \<open>range(n)\<close> whose body keeps an invariant indexed by the loop counter.\<close>

lemma for_each_upt_invariant:
  assumes "P 0 s0"
    and "\<And>i s. i < n \<Longrightarrow> P i s \<Longrightarrow> \<exists>s'. body i s = Inr s' \<and> P (Suc i) s'"
  shows "\<exists>s'. for_each [0..<n] body s0 = Inr s' \<and> P n s'"
  using assms(2)
proof (induction n)
  case 0
  then show ?case using assms(1) by simp
next
  case (Suc n)
  from Suc.IH Suc.prems obtain s1 where s1: "for_each [0..<n] body s0 = Inr s1" "P n s1"
    by (meson less_Suc_eq)
  from Suc.prems [of n s1] s1(2) obtain s' where "body n s1 = Inr s'" "P (Suc n) s'" by auto
  with s1(1) show ?case by (simp add: for_each_append)
qed

lemma length_extend_vsv: "length (extend_vsv k step vs) = length vs + k"
  by (induction k step vs rule: extend_vsv.induct) simp_all

lemma n_layers_for_pos:
  assumes "0 < m"
  shows "n_layers_for gap m = Inr (nat (max 1 \<lfloor>gap / m\<rfloor>))" and "1 \<le> nat (max 1 \<lfloor>gap / m\<rfloor>)"
  using assms by (simp_all add: n_layers_for_def)

lemma n_layers_for_small:
  assumes "0 < m" "gap < m"
  shows "nat (max 1 \<lfloor>gap / m\<rfloor>) = 1"
proof -
  have "gap / m < 1" using assms by simp
  then have "\<lfloor>gap / m\<rfloor> < 1" by (simp add: floor_less_iff)
  then show ?thesis by simp
qed

text \<open>The layers appended for one boundary: \<open>k\<close> equal layers, then the padding above the
  boundary, its width, and the padding below.\<close>

lemma appended_layers:
  fixes T :: "real list" and x a w b :: real
  assumes k: "1 \<le> k"
  defines "T' \<equiv> T @ replicate k x @ [a] @ [w] @ [b]"
  shows "length T' = length T + k + 3"
    and "T' ! (length T' - 3) = a" and "T' ! (length T' - 3 + 1) = w"
    and "T' ! (length T' - 3 - 1) = x"
    and "sum_list T' = sum_list T + real k * x + a + w + b"
    and "\<And>j. j < length T \<Longrightarrow> T' ! j = T ! j"
proof -
  show len: "length T' = length T + k + 3" by (simp add: T'_def)
  have i3: "length T' - 3 = length T + k" using len by simp
  have R: "(replicate k x @ [a] @ [w] @ [b]) ! (k + j) = ([a] @ [w] @ [b]) ! j" for j
    using nth_append_length_plus [of "replicate k x" "[a] @ [w] @ [b]" j] by simp
  have "T' ! (length T + (k + j)) = ([a] @ [w] @ [b]) ! j" for j
    unfolding T'_def using nth_append_length_plus [of T "replicate k x @ [a] @ [w] @ [b]" "k + j"] R
    by simp
  from this [of 0] this [of 1] show "T' ! (length T' - 3) = a" "T' ! (length T' - 3 + 1) = w"
    by (simp_all add: i3 add.assoc)
  have "T' ! (length T + (k - 1)) = (replicate k x @ [a] @ [w] @ [b]) ! (k - 1)"
    unfolding T'_def by (rule nth_append_length_plus)
  also have "\<dots> = x" using k by (simp add: nth_append)
  finally show "T' ! (length T' - 3 - 1) = x" using k by (simp add: i3)
  show "sum_list T' = sum_list T + real k * x + a + w + b"
    by (simp add: T'_def sum_list_replicate)
  show "\<And>j. j < length T \<Longrightarrow> T' ! j = T ! j" by (simp add: T'_def nth_append)
qed

lemma boundary_loop:
  fixes s :: SetupModel and v0 :: real
  defines "n \<equiv> length (boundary_depths s)"
  defines "G \<equiv> \<lambda>j. depth_top_layer s j - padding_of s j - depth_boundary_above s j"
  defines "K \<equiv> \<lambda>j. nat (max 1 \<lfloor>G j / min_layer_thickness s\<rfloor>)"
  assumes ws: "well_shaped s"
  shows "\<exists>st. for_each [0..<n] (add_boundary s)
                \<lparr>vsv = [v0], thickness = [depth_limits s ! 0], boundary_inds = []\<rparr> = Inr st \<and>
           length (vsv st) = length (thickness st) \<and>
           thickness st \<noteq> [] \<and> thickness st ! 0 = depth_limits s ! 0 \<and>
           sum_list (thickness st) = depth_boundary_above s n \<and>
           length (boundary_inds st) = n \<and>
           (\<forall>j<n. 2 \<le> boundary_inds st ! j \<and> boundary_inds st ! j + 2 < length (thickness st) \<and>
                  thickness st ! (boundary_inds st ! j + 1) = boundary_widths s ! j \<and>
                  thickness st ! (boundary_inds st ! j) = padding_of s j \<and>
                  thickness st ! (boundary_inds st ! j - 1) = G j / real (K j)) \<and>
           (valid_config s \<longrightarrow> list_all (\<lambda>x. 0 \<le> x) (tl (thickness st)))"
proof -
  define P where "P = (\<lambda>(i::nat) (st::InversionModel).
           length (vsv st) = length (thickness st) \<and>
           thickness st \<noteq> [] \<and> thickness st ! 0 = depth_limits s ! 0 \<and>
           sum_list (thickness st) = depth_boundary_above s i \<and>
           length (boundary_inds st) = i \<and>
           (\<forall>j<i. 2 \<le> boundary_inds st ! j \<and> boundary_inds st ! j + 2 < length (thickness st) \<and>
                  thickness st ! (boundary_inds st ! j + 1) = boundary_widths s ! j \<and>
                  thickness st ! (boundary_inds st ! j) = padding_of s j \<and>
                  thickness st ! (boundary_inds st ! j - 1) = G j / real (K j)) \<and>
           (valid_config s \<longrightarrow> list_all (\<lambda>x. 0 \<le> x) (tl (thickness st))))"
  let ?st0 = "\<lparr>vsv = [v0], thickness = [depth_limits s ! 0], boundary_inds = []\<rparr>"
  have mlt: "0 < min_layer_thickness s" using ws by (simp add: well_shaped_def)
  have P0: "P 0 ?st0" by (simp add: P_def depth_boundary_above_def)
  have step: "\<exists>st'. add_boundary s i st = Inr st' \<and> P (Suc i) st'" if i: "i < n" and P: "P i st" for i st
  proof -
    let ?T = "thickness st"
    let ?k = "K i" and ?x = "G i / real (K i)"
    let ?a = "padding_of s i" and ?w = "boundary_widths s ! i"
    let ?T' = "?T @ replicate ?k ?x @ [?a] @ [?w] @ [?a]"
    have sumT: "sum_list ?T = depth_boundary_above s i" using P by (simp add: P_def)
    have k1: "1 \<le> ?k" unfolding K_def using n_layers_for_pos(2) [OF mlt] .
    have guard: "i * 2 + 1 < length (boundary_vsv s)" "i < length (boundary_depths s)"
        "i < length (boundary_widths s)" "i < length (boundary_depth_uncertainty s)"
      using ws i by (simp_all add: well_shaped_def n_def)
    have gap: "depth_top_layer s i - padding_of s i - sum_list ?T = G i"
      by (simp add: G_def sumT)
    have nl: "n_layers_for (G i) (min_layer_thickness s) = Inr ?k"
      unfolding K_def using n_layers_for_pos(1) [OF mlt] .
    have "\<exists>vs. add_boundary s i st =
              Inr \<lparr>vsv = vs, thickness = ?T', boundary_inds = boundary_inds st @ [length ?T' - 3]\<rparr> \<and>
            length vs = length (vsv st) + ?k + 3"
      using guard nl gap
      by (simp add: add_boundary_def Let_def depth_top_layer_def padding_of_def length_extend_vsv)
    then obtain vs where run: "add_boundary s i st =
              Inr \<lparr>vsv = vs, thickness = ?T', boundary_inds = boundary_inds st @ [length ?T' - 3]\<rparr>"
        and lvs: "length vs = length (vsv st) + ?k + 3"
      by blast
    define st' where "st' = \<lparr>vsv = vs, thickness = ?T',
                               boundary_inds = boundary_inds st @ [length ?T' - 3]\<rparr>"
    have st'_simps: "vsv st' = vs" "thickness st' = ?T'"
        "boundary_inds st' = boundary_inds st @ [length ?T' - 3]"
      by (simp_all add: st'_def)
    note A = appended_layers [where k = "?k" and T = "?T" and x = "?x" and a = "?a" and w = "?w"
        and b = "?a", OF k1]
    have kx: "real ?k * ?x = G i" using k1 by simp
    have sum': "sum_list ?T' = depth_boundary_above s (Suc i)"
      using A(5) kx sumT
      by (simp add: depth_boundary_above_def depth_base_plus_1_def G_def)
    have old: "\<forall>j<i. 2 \<le> boundary_inds st' ! j \<and> boundary_inds st' ! j + 2 < length ?T' \<and>
                  ?T' ! (boundary_inds st' ! j + 1) = boundary_widths s ! j \<and>
                  ?T' ! (boundary_inds st' ! j) = padding_of s j \<and>
                  ?T' ! (boundary_inds st' ! j - 1) = G j / real (K j)"
    proof (intro allI impI)
      fix j assume j: "j < i"
      have bj: "boundary_inds st' ! j = boundary_inds st ! j"
        using j P by (simp add: P_def nth_append st'_simps)
      have Pj: "2 \<le> boundary_inds st ! j" "boundary_inds st ! j + 2 < length ?T"
          "?T ! (boundary_inds st ! j + 1) = boundary_widths s ! j"
          "?T ! (boundary_inds st ! j) = padding_of s j"
          "?T ! (boundary_inds st ! j - 1) = G j / real (K j)"
        using P j by (simp_all add: P_def)
      show "2 \<le> boundary_inds st' ! j \<and> boundary_inds st' ! j + 2 < length ?T' \<and>
                  ?T' ! (boundary_inds st' ! j + 1) = boundary_widths s ! j \<and>
                  ?T' ! (boundary_inds st' ! j) = padding_of s j \<and>
                  ?T' ! (boundary_inds st' ! j - 1) = G j / real (K j)"
        unfolding bj using Pj A(1) A(6) [of "boundary_inds st ! j + 1"]
          A(6) [of "boundary_inds st ! j"] A(6) [of "boundary_inds st ! j - 1"]
        by simp
    qed
    have Tne: "?T \<noteq> []" using P by (simp add: P_def)
    have "0 < length ?T" using Tne by simp
    then have new: "2 \<le> length ?T' - 3" "length ?T' - 3 + 2 < length ?T'"
      using A(1) k1 by linarith+
    have bi: "boundary_inds st' ! i = length ?T' - 3"
      using P by (simp add: P_def nth_append st'_simps)
    have all: "\<forall>j<Suc i. 2 \<le> boundary_inds st' ! j \<and> boundary_inds st' ! j + 2 < length ?T' \<and>
                  ?T' ! (boundary_inds st' ! j + 1) = boundary_widths s ! j \<and>
                  ?T' ! (boundary_inds st' ! j) = padding_of s j \<and>
                  ?T' ! (boundary_inds st' ! j - 1) = G j / real (K j)"
    proof (intro allI impI)
      fix j assume "j < Suc i"
      then consider "j < i" | "j = i" by linarith
      then show "2 \<le> boundary_inds st' ! j \<and> boundary_inds st' ! j + 2 < length ?T' \<and>
                  ?T' ! (boundary_inds st' ! j + 1) = boundary_widths s ! j \<and>
                  ?T' ! (boundary_inds st' ! j) = padding_of s j \<and>
                  ?T' ! (boundary_inds st' ! j - 1) = G j / real (K j)"
      proof cases
        case 1
        then show ?thesis using old by blast
      next
        case 2
        show ?thesis unfolding 2 bi using new A(2,3,4) by simp
      qed
    qed
    have nonneg: "list_all (\<lambda>x. 0 \<le> x) (tl ?T')" if v: "valid_config s"
    proof -
      have o: "list_all (\<lambda>x. 0 \<le> x) (tl ?T)" using P v by (simp add: P_def)
      have vi: "0 \<le> ?w" "0 \<le> boundary_depth_uncertainty s ! i" "0 \<le> G i"
        using v i by (simp_all add: valid_config_def n_def G_def)
      then have "0 \<le> ?a" "0 \<le> ?x" using mlt by (simp_all add: padding_of_def)
      moreover have "tl ?T' = tl ?T @ replicate ?k ?x @ [?a] @ [?w] @ [?a]" using Tne by simp
      ultimately show ?thesis using o vi(1) by (auto simp: list_all_iff)
    qed
    have "P (Suc i) st'"
      unfolding P_def
    proof (intro conjI)
      show "length (vsv st') = length (thickness st')"
        using P A(1) lvs by (simp add: P_def st'_simps)
      show "thickness st' \<noteq> []" by (simp add: st'_simps)
      show "thickness st' ! 0 = depth_limits s ! 0"
        using A(6) [of 0] Tne P by (simp add: P_def st'_simps)
      show "sum_list (thickness st') = depth_boundary_above s (Suc i)"
        using sum' by (simp add: st'_simps)
      show "length (boundary_inds st') = Suc i" using P by (simp add: P_def st'_simps)
      show "\<forall>j<Suc i. 2 \<le> boundary_inds st' ! j \<and> boundary_inds st' ! j + 2 < length (thickness st') \<and>
                  thickness st' ! (boundary_inds st' ! j + 1) = boundary_widths s ! j \<and>
                  thickness st' ! (boundary_inds st' ! j) = padding_of s j \<and>
                  thickness st' ! (boundary_inds st' ! j - 1) = G j / real (K j)"
        using all by (simp only: st'_simps(2))
      show "valid_config s \<longrightarrow> list_all (\<lambda>x. 0 \<le> x) (tl (thickness st'))"
        using nonneg by (simp only: st'_simps(2)) simp
    qed
    with run show ?thesis unfolding st'_def by blast
  qed
  from for_each_upt_invariant [of P ?st0 n "add_boundary s", OF P0 step]
  show ?thesis by (simp add: P_def)
qed

lemma setup_starting_model_result:
  fixes s :: SetupModel and ref_vs :: "real \<Rightarrow> real"
  defines "n \<equiv> length (boundary_depths s)"
  defines "G \<equiv> \<lambda>j. depth_top_layer s j - padding_of s j - depth_boundary_above s j"
  defines "K \<equiv> \<lambda>j. nat (max 1 \<lfloor>G j / min_layer_thickness s\<rfloor>)"
  assumes ws: "well_shaped s"
  shows "\<exists>m. setup_starting_model ref_vs s = Inr m \<and>
           length (vsv m) = length (thickness m) \<and>
           thickness m ! 0 = depth_limits s ! 0 \<and>
           length (boundary_inds m) = n \<and>
           (\<forall>j<n. 2 \<le> boundary_inds m ! j \<and> boundary_inds m ! j + 2 < length (thickness m) \<and>
                  thickness m ! (boundary_inds m ! j + 1) = boundary_widths s ! j \<and>
                  thickness m ! (boundary_inds m ! j) = padding_of s j \<and>
                  thickness m ! (boundary_inds m ! j - 1) = G j / real (K j)) \<and>
           (valid_config s \<longrightarrow> (\<forall>k. 1 \<le> k \<and> k < length (thickness m) \<longrightarrow> 0 \<le> thickness m ! k))"
proof -
  let ?top = "depth_limits s ! 0" and ?base = "depth_limits s ! 1"
  have mlt: "0 < min_layer_thickness s" using ws by (simp add: well_shaped_def)
  have g0: "getitem (depth_limits s) 0 = Inr ?top" and g1: "getitem (depth_limits s) 1 = Inr ?base"
    using ws getitem_nat [of "depth_limits s" 0] getitem_nat [of "depth_limits s" 1]
    by (simp_all add: well_shaped_def)
  from boundary_loop [OF ws, of "ref_vs ?top"]
  obtain st where loop: "for_each [0..<n] (add_boundary s)
                \<lparr>vsv = [ref_vs ?top], thickness = [?top], boundary_inds = []\<rparr> = Inr st"
    and st: "length (vsv st) = length (thickness st)" "thickness st \<noteq> []"
      "thickness st ! 0 = ?top" "sum_list (thickness st) = depth_boundary_above s n"
      "length (boundary_inds st) = n"
    and bs: "\<forall>j<n. 2 \<le> boundary_inds st ! j \<and> boundary_inds st ! j + 2 < length (thickness st) \<and>
                  thickness st ! (boundary_inds st ! j + 1) = boundary_widths s ! j \<and>
                  thickness st ! (boundary_inds st ! j) = padding_of s j \<and>
                  thickness st ! (boundary_inds st ! j - 1) = G j / real (K j)"
    and nn: "valid_config s \<longrightarrow> list_all (\<lambda>x. 0 \<le> x) (tl (thickness st))"
    unfolding n_def G_def K_def by blast
  let ?d = "?base - sum_list (thickness st)"
  let ?k = "nat (max 1 \<lfloor>?d / min_layer_thickness s\<rfloor>)"
  let ?T = "thickness st @ replicate ?k (?d / real ?k)"
  have nl: "n_layers_for ?d (min_layer_thickness s) = Inr ?k"
    using n_layers_for_pos(1) [OF mlt] .
  have "\<exists>vs. setup_starting_model ref_vs s =
            Inr \<lparr>vsv = vs, thickness = ?T, boundary_inds = boundary_inds st\<rparr> \<and>
          length vs = length (vsv st) + ?k"
    using g0 g1 loop nl
    by (simp add: setup_starting_model_def Let_def n_def length_extend_vsv)
  then obtain vs where run: "setup_starting_model ref_vs s =
            Inr \<lparr>vsv = vs, thickness = ?T, boundary_inds = boundary_inds st\<rparr>"
      and lvs: "length vs = length (vsv st) + ?k"
    by blast
  define m where "m = \<lparr>vsv = vs, thickness = ?T, boundary_inds = boundary_inds st\<rparr>"
  have m: "vsv m = vs" "thickness m = ?T" "boundary_inds m = boundary_inds st"
    by (simp_all add: m_def)
  have keep: "?T ! j = thickness st ! j" if "j < length (thickness st)" for j
    using that by (simp add: nth_append)
  have 1: "length (vsv m) = length (thickness m)" using st(1) lvs by (simp add: m)
  have 2: "thickness m ! 0 = ?top" using keep [of 0] st(2,3) by (simp add: m)
  have 3: "length (boundary_inds m) = n" using st(5) by (simp add: m)
  have 4: "\<forall>j<n. 2 \<le> boundary_inds m ! j \<and> boundary_inds m ! j + 2 < length (thickness m) \<and>
                  thickness m ! (boundary_inds m ! j + 1) = boundary_widths s ! j \<and>
                  thickness m ! (boundary_inds m ! j) = padding_of s j \<and>
                  thickness m ! (boundary_inds m ! j - 1) = G j / real (K j)"
  proof (intro allI impI)
    fix j assume "j < n"
    with bs have b: "2 \<le> boundary_inds st ! j" "boundary_inds st ! j + 2 < length (thickness st)"
        "thickness st ! (boundary_inds st ! j + 1) = boundary_widths s ! j"
        "thickness st ! (boundary_inds st ! j) = padding_of s j"
        "thickness st ! (boundary_inds st ! j - 1) = G j / real (K j)"
      by simp_all
    show "2 \<le> boundary_inds m ! j \<and> boundary_inds m ! j + 2 < length (thickness m) \<and>
                  thickness m ! (boundary_inds m ! j + 1) = boundary_widths s ! j \<and>
                  thickness m ! (boundary_inds m ! j) = padding_of s j \<and>
                  thickness m ! (boundary_inds m ! j - 1) = G j / real (K j)"
      unfolding m using b keep [of "boundary_inds st ! j + 1"] keep [of "boundary_inds st ! j"]
        keep [of "boundary_inds st ! j - 1"]
      by simp
  qed
  have 5: "\<forall>k. 1 \<le> k \<and> k < length (thickness m) \<longrightarrow> 0 \<le> thickness m ! k" if v: "valid_config s"
  proof -
    have "0 \<le> ?d" using v st(4) by (simp add: valid_config_def n_def)
    then have x: "0 \<le> ?d / real ?k" by simp
    have o: "\<forall>x\<in>set (tl (thickness st)). 0 \<le> x" using nn v by (simp add: list_all_iff)
    have "tl ?T = tl (thickness st) @ replicate ?k (?d / real ?k)" using st(2) by simp
    then have all: "\<forall>y\<in>set (tl ?T). 0 \<le> y" using o x by auto
    show ?thesis
    proof (intro allI impI, elim conjE)
      fix k assume k: "1 \<le> k" "k < length (thickness m)"
      then have "k - 1 < length (tl ?T)" by (simp add: m)
      then have "tl ?T ! (k - 1) \<in> set (tl ?T)" by (rule nth_mem)
      moreover have "tl ?T ! (k - 1) = ?T ! k" using k by (simp add: nth_tl m)
      ultimately show "0 \<le> thickness m ! k" using all by (simp add: m)
    qed
  qed
  from run 1 2 3 4 5 show ?thesis unfolding m_def by blast
qed

section \<open>Claims about the starting model\<close>

text \<open>
  What \<open>setup_starting_model\<close> guarantees for every valid configuration: it returns a model;
  the first thickness is \<open>depth_limits[0]\<close>, the depth of the first node; the cumulative
  depths \<open>sum(thickness[0..i])\<close> do not decrease with \<open>i\<close>; and for every boundary \<open>j\<close>,
  \<open>thickness[boundary_inds[j] + 1]\<close> is the configured width of that boundary.
\<close>

lemma starting_model_invariants:
  assumes v: "valid_config s"
  shows "\<exists>m. setup_starting_model ref_vs s = Inr m \<and>
           thickness m ! 0 = depth_limits s ! 0 \<and>
           (\<forall>i. i + 1 < length (thickness m) \<longrightarrow> sum_thickness m (i + 1) \<le> sum_thickness m (i + 2)) \<and>
           length (boundary_inds m) = length (boundary_depths s) \<and>
           (\<forall>j<length (boundary_depths s).
               thickness m ! (boundary_inds m ! j + 1) = boundary_widths s ! j)"
proof -
  have ws: "well_shaped s" using v by (simp add: valid_config_def)
  from setup_starting_model_result [OF ws, of ref_vs] v
  obtain m where m: "setup_starting_model ref_vs s = Inr m"
      "thickness m ! 0 = depth_limits s ! 0"
      "length (boundary_inds m) = length (boundary_depths s)"
      "\<forall>j<length (boundary_depths s). thickness m ! (boundary_inds m ! j + 1) = boundary_widths s ! j"
      "\<forall>k. 1 \<le> k \<and> k < length (thickness m) \<longrightarrow> 0 \<le> thickness m ! k"
    by auto
  have "sum_thickness m (i + 1) \<le> sum_thickness m (i + 2)" if "i + 1 < length (thickness m)" for i
    using sum_thickness_Suc [of "i + 1" m] that m(5) by simp
  with m(1-4) show ?thesis by blast
qed

lemma starting_model_invariants_at_surface:
  "\<exists>m. setup_starting_model (\<lambda>d. 3 + d / 100)
          \<lparr>boundary_depths = [30], boundary_depth_uncertainty = [2], boundary_widths = [5],
             boundary_vsv = [4, 9 / 2], depth_limits = [0, 100], min_layer_thickness = 6,
             vsv_vsh_ratio = 1, vpv_vsv_ratio = 7 / 4, vpv_vph_ratio = 1\<rparr> = Inr m \<and>
       thickness m ! 0 = 0 \<and> length (boundary_inds m) = 1 \<and> thickness m ! (boundary_inds m ! 0 + 1) = 5"
proof -
  let ?s = "\<lparr>boundary_depths = [30], boundary_depth_uncertainty = [2], boundary_widths = [5],
             boundary_vsv = [4, 9 / 2], depth_limits = [0, 100], min_layer_thickness = 6,
             vsv_vsh_ratio = 1, vpv_vsv_ratio = 7 / 4, vpv_vph_ratio = 1\<rparr>"
  have v: "valid_config ?s"
    by (simp add: valid_config_def well_shaped_def depth_boundary_above_def depth_base_plus_1_def
          depth_top_layer_def padding_of_def)
  from starting_model_invariants [OF v, of "\<lambda>d. 3 + d / 100"] show ?thesis by auto
qed

text \<open>A configuration without boundaries that inverts from 10 km to 22 km depth, with the
  default ratios, is valid.\<close>

lemma deep_start_config_is_valid:
  "valid_config
     \<lparr>boundary_depths = [], boundary_depth_uncertainty = [], boundary_widths = [],
        boundary_vsv = [], depth_limits = [10, 22], min_layer_thickness = 6,
        vsv_vsh_ratio = 1, vpv_vsv_ratio = 7 / 4, vpv_vph_ratio = 1\<rparr>"
  by (simp add: valid_config_def well_shaped_def depth_boundary_above_def)

text \<open>
  Claim C3. The claim is that for every valid configuration the returned model has
  \<open>thickness[0] = 0\<close>, cumulative depths \<open>sum(thickness[0..i])\<close> that do not decrease, and at
  every boundary the configured width as \<open>thickness[boundary_inds[j] + 1]\<close>. The docstring of
  \<open>InversionModel\<close> promises the first part too: the first node is at the surface and the
  first thickness is 0 always. \<open>setup_starting_model\<close> however starts the thickness list
  with \<open>depth_limits[0]\<close>. For the configuration below, which is valid (lemma
  \<open>deep_start_config_is_valid\<close>) and inverts from 10 km depth, the returned model has
  \<open>thickness[0] = 10\<close>, not 0. The second and the third part of the claim hold for every
  valid configuration (lemma \<open>starting_model_invariants\<close>).
\<close>

theorem first_thickness_is_not_zero:
  "setup_starting_model (\<lambda>d. 3 + d / 100)
     \<lparr>boundary_depths = [], boundary_depth_uncertainty = [], boundary_widths = [],
        boundary_vsv = [], depth_limits = [10, 22], min_layer_thickness = 6,
        vsv_vsh_ratio = 1, vpv_vsv_ratio = 7 / 4, vpv_vph_ratio = 1\<rparr>
     = Inr \<lparr>vsv = [31 / 10, 79 / 25, 161 / 50], thickness = [10, 6, 6], boundary_inds = []\<rparr>"
  by code_simp

text \<open>
  Claim C4. The literal scenario, with the default ratios and any reference model: one
  boundary index, velocity 4.0 at it and 4.5 at the next node (exactly, over the reals),
  and the width 5 as the thickness of the node after the boundary index.
\<close>

theorem literal_scenario:
  "\<exists>m. setup_starting_model ref_vs
          \<lparr>boundary_depths = [30], boundary_depth_uncertainty = [2], boundary_widths = [5],
             boundary_vsv = [4, 9 / 2], depth_limits = [0, 100], min_layer_thickness = 6,
             vsv_vsh_ratio = 1, vpv_vsv_ratio = 7 / 4, vpv_vph_ratio = 1\<rparr> = Inr m \<and>
       length (boundary_inds m) = 1 \<and>
       vsv m ! (boundary_inds m ! 0) = 4 \<and>
       vsv m ! (boundary_inds m ! 0 + 1) = 9 / 2 \<and>
       thickness m ! (boundary_inds m ! 0 + 1) = 5"
proof -
  let ?r = "setup_starting_model ref_vs
          \<lparr>boundary_depths = [30], boundary_depth_uncertainty = [2], boundary_widths = [5],
             boundary_vsv = [4, 9 / 2], depth_limits = [0, 100], min_layer_thickness = 6,
             vsv_vsh_ratio = 1, vpv_vsv_ratio = 7 / 4, vpv_vph_ratio = 1\<rparr>"
  have "case ?r of Inl e \<Rightarrow> False
        | Inr m \<Rightarrow> boundary_inds m = [4] \<and> vsv m ! 4 = 4 \<and> vsv m ! 5 = 9 / 2 \<and> thickness m ! 5 = 5"
    by code_simp
  then show ?thesis by (cases ?r) auto
qed

text \<open>
  Claim C6, as the code has it. The code checks no overlap and raises nothing for one. When
  the padded top of boundary \<open>i\<close>, \<open>depth_top - padding\<close>, is shallower than the padded
  base of the boundary before it, \<open>depth_base + padding\<close>, \<open>setup_starting_model\<close> still
  returns a model: the gap is filled by a single layer, the one above \<open>boundary_inds[i]\<close>,
  whose thickness is the negative difference of the two depths.
\<close>

theorem overlapping_boundaries_give_negative_layer:
  assumes ws: "well_shaped s"
    and i: "1 \<le> i" "i < length (boundary_depths s)"
    and overlap: "depth_top_layer s i - padding_of s i < depth_base_plus_1 s (i - 1)"
  shows "\<exists>m. setup_starting_model ref_vs s = Inr m \<and>
           thickness m ! (boundary_inds m ! i - 1)
             = depth_top_layer s i - padding_of s i - depth_base_plus_1 s (i - 1) \<and>
           thickness m ! (boundary_inds m ! i - 1) < 0"
proof -
  let ?G = "depth_top_layer s i - padding_of s i - depth_boundary_above s i"
  have mlt: "0 < min_layer_thickness s" using ws by (simp add: well_shaped_def)
  have G: "?G = depth_top_layer s i - padding_of s i - depth_base_plus_1 s (i - 1)"
    using i(1) by (simp add: depth_boundary_above_def)
  then have neg: "?G < 0" using overlap by simp
  then have "?G < min_layer_thickness s" using mlt by simp
  from n_layers_for_small [OF mlt this] have K: "nat (max 1 \<lfloor>?G / min_layer_thickness s\<rfloor>) = 1" .
  from setup_starting_model_result [OF ws, of ref_vs] i(2)
  obtain m where m: "setup_starting_model ref_vs s = Inr m"
      "thickness m ! (boundary_inds m ! i - 1)
         = ?G / real (nat (max 1 \<lfloor>?G / min_layer_thickness s\<rfloor>))"
    by blast
  from m(2) have "thickness m ! (boundary_inds m ! i - 1) = ?G" by (simp only: K) simp
  with m(1) G neg show ?thesis by auto
qed

theorem overlapping_boundaries_give_negative_layer_witness:
  "\<exists>m. setup_starting_model (\<lambda>d. 3 + d / 100)
          \<lparr>boundary_depths = [30, 40], boundary_depth_uncertainty = [2, 2], boundary_widths = [5, 5],
             boundary_vsv = [4, 9 / 2, 5, 6], depth_limits = [0, 60], min_layer_thickness = 6,
             vsv_vsh_ratio = 1, vpv_vsv_ratio = 7 / 4, vpv_vph_ratio = 1\<rparr> = Inr m \<and>
       thickness m ! (boundary_inds m ! 1 - 1) = - 11"
proof -
  let ?s = "\<lparr>boundary_depths = [30, 40], boundary_depth_uncertainty = [2, 2], boundary_widths = [5, 5],
             boundary_vsv = [4, 9 / 2, 5, 6], depth_limits = [0, 60], min_layer_thickness = 6,
             vsv_vsh_ratio = 1, vpv_vsv_ratio = 7 / 4, vpv_vph_ratio = 1\<rparr>"
  have ws: "well_shaped ?s" by (simp add: well_shaped_def)
  have i: "1 \<le> (1::nat)" "1 < length (boundary_depths ?s)" by simp_all
  have ov: "depth_top_layer ?s 1 - padding_of ?s 1 < depth_base_plus_1 ?s (1 - 1)"
    by (simp add: depth_top_layer_def padding_of_def depth_base_plus_1_def)
  from overlapping_boundaries_give_negative_layer [OF ws i ov, of "\<lambda>d. 3 + d / 100"]
  show ?thesis by (auto simp: depth_top_layer_def padding_of_def depth_base_plus_1_def)
qed

theorem overlapping_boundaries_return_a_model:
  "depth_top_layer
     \<lparr>boundary_depths = [30, 40], boundary_depth_uncertainty = [2, 2], boundary_widths = [5, 5],
        boundary_vsv = [4, 9 / 2, 5, 6], depth_limits = [0, 60], min_layer_thickness = 6,
        vsv_vsh_ratio = 1, vpv_vsv_ratio = 7 / 4, vpv_vph_ratio = 1\<rparr> 1
   - padding_of
     \<lparr>boundary_depths = [30, 40], boundary_depth_uncertainty = [2, 2], boundary_widths = [5, 5],
        boundary_vsv = [4, 9 / 2, 5, 6], depth_limits = [0, 60], min_layer_thickness = 6,
        vsv_vsh_ratio = 1, vpv_vsv_ratio = 7 / 4, vpv_vph_ratio = 1\<rparr> 1
   < depth_base_plus_1
     \<lparr>boundary_depths = [30, 40], boundary_depth_uncertainty = [2, 2], boundary_widths = [5, 5],
        boundary_vsv = [4, 9 / 2, 5, 6], depth_limits = [0, 60], min_layer_thickness = 6,
        vsv_vsh_ratio = 1, vpv_vsv_ratio = 7 / 4, vpv_vph_ratio = 1\<rparr> 0 \<and>
   setup_starting_model (\<lambda>d. 3 + d / 100)
     \<lparr>boundary_depths = [30, 40], boundary_depth_uncertainty = [2, 2], boundary_widths = [5, 5],
        boundary_vsv = [4, 9 / 2, 5, 6], depth_limits = [0, 60], min_layer_thickness = 6,
        vsv_vsh_ratio = 1, vpv_vsv_ratio = 7 / 4, vpv_vph_ratio = 1\<rparr>
   = Inr \<lparr>vsv = [3, 178 / 55, 191 / 55, 204 / 55, 4, 9 / 2, 9 / 2, 19 / 3, 5, 6, 6, 18 / 5],
           thickness = [0, 13 / 2, 13 / 2, 13 / 2, 8, 5, 8, - 11, 8, 5, 8, 19 / 2],
           boundary_inds = [4, 8]\<rparr>"
  by code_simp

section \<open>The column loop of the smoothing functions\<close>

lemma index_of_Some: "index_of cs name = Some j \<Longrightarrow> j < length cs \<and> cs ! j = name"
  by (induction cs arbitrary: j) (auto split: if_splits)

lemma index_of_nth: "distinct cs \<Longrightarrow> j < length cs \<Longrightarrow> index_of cs (cs ! j) = Some j"
proof (induction cs arbitrary: j)
  case Nil
  then show ?case by simp
next
  case (Cons c cs)
  show ?case
  proof (cases j)
    case 0
    then show ?thesis by simp
  next
    case (Suc j')
    then have "cs ! j' \<noteq> c" using Cons.prems by auto
    then show ?thesis using Suc Cons by simp
  qed
qed

lemma for_each_cong:
  assumes "\<And>x s. x \<in> set xs \<Longrightarrow> f x s = g x s"
  shows "for_each xs f s = for_each xs g s"
  using assms by (induction xs arbitrary: s) (auto split: sum.splits)

lemma add_to_column_entry:
  assumes "length fr = length rws" "k < length rws" "j < length (rws ! k)"
  shows "length (add_to_column j d fr rws) = length rws"
    and "length (add_to_column j d fr rws ! k) = length (rws ! k)"
    and "add_to_column j d fr rws ! k ! j' =
           (if j' = j then rws ! k ! j + d * fr ! k else rws ! k ! j')"
  using assms by (auto simp: add_to_column_def)

text \<open>Adding to several distinct columns, one after the other.\<close>

lemma add_columns_loop:
  assumes dist: "distinct cs" and inj: "inj_on J (set cs)" and J: "\<forall>c\<in>set cs. J c < C"
    and len: "length fr = length rws" and sh: "\<forall>row\<in>set rws. length row = C"
  shows "\<exists>out. for_each cs (\<lambda>c rws. Inr (add_to_column (J c) (D c) fr rws)) rws = Inr out \<and>
           length out = length rws \<and> (\<forall>row\<in>set out. length row = C) \<and>
           (\<forall>k<length rws. \<forall>j<C. out ! k ! j =
               rws ! k ! j + (\<Sum>c\<leftarrow>cs. if J c = j then D c * fr ! k else 0))"
  using assms
proof (induction cs arbitrary: rws)
  case Nil
  then show ?case by simp
next
  case (Cons c cs)
  let ?r1 = "add_to_column (J c) (D c) fr rws"
  have l1: "length ?r1 = length rws" using Cons.prems(4) by (simp add: add_to_column_def)
  have e1: "length (?r1 ! k) = C \<and>
            (\<forall>j. ?r1 ! k ! j = (if j = J c then rws ! k ! (J c) + D c * fr ! k else rws ! k ! j))"
    if "k < length rws" for k
  proof -
    have "length (rws ! k) = C" using Cons.prems(5) that by simp
    moreover have "J c < C" using Cons.prems(3) by simp
    ultimately show ?thesis
      using add_to_column_entry(2,3) [OF Cons.prems(4) that, of "J c" "D c"] by simp
  qed
  have sh1: "\<forall>row\<in>set ?r1. length row = C"
    using e1 l1 by (metis in_set_conv_nth)
  have "\<exists>out. for_each cs (\<lambda>c rws. Inr (add_to_column (J c) (D c) fr rws)) ?r1 = Inr out \<and>
           length out = length ?r1 \<and> (\<forall>row\<in>set out. length row = C) \<and>
           (\<forall>k<length ?r1. \<forall>j<C. out ! k ! j =
               ?r1 ! k ! j + (\<Sum>c\<leftarrow>cs. if J c = j then D c * fr ! k else 0))"
    using Cons.prems l1 sh1 by (intro Cons.IH) (auto simp: inj_on_def)
  then obtain out where out: "for_each cs (\<lambda>c rws. Inr (add_to_column (J c) (D c) fr rws)) ?r1 = Inr out"
      "length out = length rws" "\<forall>row\<in>set out. length row = C"
      "\<forall>k<length rws. \<forall>j<C. out ! k ! j =
               ?r1 ! k ! j + (\<Sum>c\<leftarrow>cs. if J c = j then D c * fr ! k else 0)"
    using l1 by auto
  have "\<forall>k<length rws. \<forall>j<C. out ! k ! j =
               rws ! k ! j + (\<Sum>c\<leftarrow>c # cs. if J c = j then D c * fr ! k else 0)"
    using out(4) e1 by auto
  with out(1,2,3) show ?case by auto
qed

lemma sum_list_skip:
  assumes "\<forall>c\<in>set cs. J c \<noteq> j"
  shows "(\<Sum>c\<leftarrow>cs. if J c = j then (f c :: real) else 0) = 0"
  using assms by (induction cs) auto

lemma sum_list_pick:
  assumes "distinct cs" "inj_on J (set cs)" "c0 \<in> set cs"
  shows "(\<Sum>c\<leftarrow>cs. if J c = J c0 then (f c :: real) else 0) = f c0"
  using assms
proof (induction cs)
  case Nil
  then show ?case by simp
next
  case (Cons c cs)
  show ?case
  proof (cases "c = c0")
    case True
    then have "\<forall>c'\<in>set cs. J c' \<noteq> J c0" using Cons.prems by (auto simp: inj_on_def)
    from sum_list_skip [OF this, of f] True show ?thesis by simp
  next
    case False
    then have "c0 \<in> set cs" "J c \<noteq> J c0" using Cons.prems by (auto simp: inj_on_def)
    then show ?thesis using Cons by (simp add: inj_on_def)
  qed
qed

lemma index_of_mem: "c \<in> set cs \<Longrightarrow> \<exists>j. index_of cs c = Some j"
  by (induction cs) auto

lemma getitem_edge:
  assumes "xs \<noteq> []"
  shows "getitem xs 0 = Inr (hd xs)" and "getitem xs (- 1) = Inr (last xs)"
proof -
  show "getitem xs 0 = Inr (hd xs)" using assms by (simp add: getitem_def hd_conv_nth)
  have "nat (int (length xs) - 1) = length xs - 1" by simp
  then show "getitem xs (- 1) = Inr (last xs)" using assms by (simp add: getitem_def last_conv_nth)
qed

text \<open>The loop over the columns adds, to every column but the first, the mismatch at the
  edge between the new and the reference model, scaled by the fraction of the row.\<close>

lemma smooth_columns_result:
  fixes ref_model new_model :: dataframe
  defines "cols \<equiv> df_columns ref_model"
  defines "R \<equiv> df_rows ref_model"
  assumes c0: "cols \<noteq> []" "hd cols = ''radius''" and dist: "distinct cols"
    and Rne: "R \<noteq> []" and srt: "sorted (map (\<lambda>row. row ! 0) R)"
    and N: "\<forall>j<length cols. index_of (df_columns new_model) (cols ! j) = Some (N j)"
    and nne: "df_rows new_model \<noteq> []"
    and edge: "(edge = 0 \<and> edge_row = hd (df_rows new_model)) \<or>
               (edge = - 1 \<and> edge_row = last (df_rows new_model))"
    and sh: "\<forall>row\<in>set sm. length row = length cols" and len: "length fr = length sm"
  shows "\<exists>out. smooth_columns ref_model new_model edge er fr sm = Inr out \<and>
           length out = length sm \<and>
           (\<forall>k<length sm. out ! k ! 0 = sm ! k ! 0 \<and>
              (\<forall>j. 1 \<le> j \<and> j < length cols \<longrightarrow>
                 out ! k ! j = sm ! k ! j
                   + (edge_row ! N j
                      - interp_points er (zip (map (\<lambda>row. row ! 0) R) (map (\<lambda>row. row ! j) R)))
                     * fr ! k))"
proof -
  define J where "J = (\<lambda>c. the (index_of cols c))"
  define D where "D = (\<lambda>c. edge_row ! N (J c)
                      - interp_points er (zip (map (\<lambda>row. row ! 0) R) (map (\<lambda>row. row ! J c) R)))"
  have Jn: "index_of cols (cols ! j) = Some j" "J (cols ! j) = j" if "j < length cols" for j
    using index_of_nth [OF dist that] by (simp_all add: J_def)
  have r0: "index_of cols ''radius'' = Some 0" using c0 by (cases cols) auto
  have tlc: "c \<in> set (tl cols) \<Longrightarrow> \<exists>j. 1 \<le> j \<and> j < length cols \<and> cols ! j = c" for c
  proof -
    assume "c \<in> set (tl cols)"
    then obtain i where "i < length (tl cols)" "tl cols ! i = c" by (auto simp: in_set_conv_nth)
    then have "1 \<le> Suc i \<and> Suc i < length cols \<and> cols ! Suc i = c"
      using c0(1) by (cases cols) auto
    then show ?thesis by blast
  qed
  have body: "(case df_column ref_model ''radius'' of Inl e \<Rightarrow> Inl e | Inr ref_radius \<Rightarrow>
         (case df_column ref_model c of Inl e \<Rightarrow> Inl e | Inr ref_col \<Rightarrow>
         (case np_interp er ref_radius ref_col of Inl e \<Rightarrow> Inl e | Inr ref_value \<Rightarrow>
         (case df_column new_model c of Inl e \<Rightarrow> Inl e | Inr new_col \<Rightarrow>
         (case getitem new_col edge of Inl e \<Rightarrow> Inl e | Inr new_value \<Rightarrow>
         (case index_of (df_columns ref_model) c of None \<Rightarrow> Inl KeyError | Some j \<Rightarrow>
            Inr (add_to_column j (new_value - ref_value) fr rws)))))))
        = Inr (add_to_column (J c) (D c) fr rws)"
    if c: "c \<in> set (tl cols)" for c rws
  proof -
    from tlc [OF c] obtain j where j: "1 \<le> j" "j < length cols" "cols ! j = c" by blast
    have ic: "index_of cols c = Some j" "J c = j" using Jn [OF j(2)] j(3) by simp_all
    have a: "df_column ref_model ''radius'' = Inr (map (\<lambda>row. row ! 0) R)"
      using r0 by (simp add: df_column_def cols_def R_def)
    have b: "df_column ref_model c = Inr (map (\<lambda>row. row ! j) R)"
      using ic(1) by (simp add: df_column_def cols_def R_def)
    have i: "np_interp er (map (\<lambda>row. row ! 0) R) (map (\<lambda>row. row ! j) R)
               = Inr (interp_points er (zip (map (\<lambda>row. row ! 0) R) (map (\<lambda>row. row ! j) R)))"
      using Rne by (simp add: np_interp_def)
    have "index_of (df_columns new_model) c = Some (N j)" using N j(2,3) by blast
    then have n: "df_column new_model c = Inr (map (\<lambda>row. row ! N j) (df_rows new_model))"
      by (simp add: df_column_def)
    have mne: "map (\<lambda>row. row ! N j) (df_rows new_model) \<noteq> []" using nne by simp
    have g: "getitem (map (\<lambda>row. row ! N j) (df_rows new_model)) edge = Inr (edge_row ! N j)"
      using edge getitem_edge [OF mne] nne by (auto simp: hd_map last_map)
    have ic': "index_of (df_columns ref_model) c = Some j" using ic(1) by (simp add: cols_def)
    show ?thesis by (simp add: a b i n g ic' D_def ic(2))
  qed
  have tc: "tl (df_columns ref_model) = tl cols" by (simp add: cols_def)
  have eq: "smooth_columns ref_model new_model edge er fr sm
            = for_each (tl cols) (\<lambda>c rws. Inr (add_to_column (J c) (D c) fr rws)) sm"
    unfolding smooth_columns_def tc
    by (rule for_each_cong) (rule body)
  have d: "distinct (tl cols)" using dist by (simp add: distinct_tl)
  have inj: "inj_on J (set (tl cols))"
  proof (rule inj_onI)
    fix a b assume "a \<in> set (tl cols)" "b \<in> set (tl cols)" "J a = J b"
    then show "a = b" using tlc [of a] tlc [of b] Jn(2) by metis
  qed
  have Jb: "\<forall>c\<in>set (tl cols). J c < length cols" using tlc Jn(2) by metis
  from add_columns_loop [OF d inj Jb len sh, of D]
  obtain out where out: "for_each (tl cols) (\<lambda>c rws. Inr (add_to_column (J c) (D c) fr rws)) sm = Inr out"
      "length out = length sm"
      "\<forall>k<length sm. \<forall>j<length cols. out ! k ! j =
               sm ! k ! j + (\<Sum>c\<leftarrow>tl cols. if J c = j then D c * fr ! k else 0)"
    by blast
  have J0: "\<forall>c\<in>set (tl cols). J c \<noteq> 0"
  proof
    fix c assume "c \<in> set (tl cols)"
    from tlc [OF this] obtain j where "1 \<le> j" "j < length cols" "cols ! j = c" by blast
    then show "J c \<noteq> 0" using Jn(2) [of j] by auto
  qed
  have "out ! k ! 0 = sm ! k ! 0 \<and>
              (\<forall>j. 1 \<le> j \<and> j < length cols \<longrightarrow>
                 out ! k ! j = sm ! k ! j
                   + (edge_row ! N j
                      - interp_points er (zip (map (\<lambda>row. row ! 0) R) (map (\<lambda>row. row ! j) R)))
                     * fr ! k)" if k: "k < length sm" for k
  proof (intro conjI allI impI)
    have "0 < length cols" using c0(1) by simp
    then have "out ! k ! 0 = sm ! k ! 0 + (\<Sum>c\<leftarrow>tl cols. if J c = 0 then D c * fr ! k else 0)"
      using out(3) k by blast
    then show "out ! k ! 0 = sm ! k ! 0"
      using sum_list_skip [OF J0, of "\<lambda>c. D c * fr ! k"] by simp
  next
    fix j assume j: "1 \<le> j \<and> j < length cols"
    then have mem: "cols ! j \<in> set (tl cols)"
      using c0(1) by (cases cols; cases j) auto
    have Jj: "J (cols ! j) = j" using Jn(2) j by simp
    have "out ! k ! j = sm ! k ! j + (\<Sum>c\<leftarrow>tl cols. if J c = J (cols ! j) then D c * fr ! k else 0)"
      using out(3) k j by (simp add: Jj)
    also have "\<dots> = sm ! k ! j + D (cols ! j) * fr ! k"
      using sum_list_pick [OF d inj mem, of "\<lambda>c. D c * fr ! k"] by simp
    finally show "out ! k ! j = sm ! k ! j
                   + (edge_row ! N j
                      - interp_points er (zip (map (\<lambda>row. row ! 0) R) (map (\<lambda>row. row ! j) R)))
                     * fr ! k"
      by (simp add: D_def Jj)
  qed
  with eq out(1,2) show ?thesis by auto
qed

lemma df_where_radius_first:
  assumes "df_columns df \<noteq> []" "hd (df_columns df) = ''radius''"
  shows "df_where_radius cond df = Inr (df\<lparr>df_rows := filter (\<lambda>row. cond (row ! 0)) (df_rows df)\<rparr>)"
  using assms by (cases "df_columns df") (auto simp: df_where_radius_def)

lemma df_column_radius_first:
  assumes "df_columns df \<noteq> []" "hd (df_columns df) = ''radius''"
  shows "df_column df ''radius'' = Inr (map (\<lambda>row. row ! 0) (df_rows df))"
  using assms by (cases "df_columns df") (auto simp: df_column_def)

lemma smooth_to_ref_model_below_result:
  fixes ref_model new_model :: dataframe and N :: "nat \<Rightarrow> nat"
  defines "cols \<equiv> df_columns ref_model"
  defines "R \<equiv> df_rows ref_model"
  defines "radius_0 \<equiv> hd (df_rows new_model) ! N 0"
  defines "below \<equiv> filter (\<lambda>row. row ! 0 < radius_0 - smooth_z) R"
  defines "band \<equiv> filter (\<lambda>row. radius_0 - smooth_z \<le> row ! 0 \<and> row ! 0 < radius_0) R"
  assumes c0: "cols \<noteq> []" "hd cols = ''radius''" and dist: "distinct cols"
    and Rne: "R \<noteq> []" and srt: "sorted (map (\<lambda>row. row ! 0) R)"
    and Rsh: "\<forall>row\<in>set R. length row = length cols"
    and N: "\<forall>j<length cols. index_of (df_columns new_model) (cols ! j) = Some (N j)"
    and nne: "df_rows new_model \<noteq> []"
  shows "\<exists>out. smooth_to_ref_model_below ref_model new_model = Inr out \<and>
           df_columns out = cols \<and>
           length (df_rows out) = length below + length band \<and>
           (\<forall>k<length below. df_rows out ! k = below ! k) \<and>
           (\<forall>k<length band.
              df_rows out ! (length below + k) ! 0 = band ! k ! 0 \<and>
              (\<forall>j. 1 \<le> j \<and> j < length cols \<longrightarrow>
                 df_rows out ! (length below + k) ! j =
                   band ! k ! j
                   + (band ! k ! 0 - (radius_0 - smooth_z)) / smooth_z
                     * (hd (df_rows new_model) ! N j
                        - interp_points radius_0
                            (zip (map (\<lambda>row. row ! 0) R) (map (\<lambda>row. row ! j) R)))))"
proof -
  let ?base = "radius_0 - smooth_z"
  let ?fr = "map (\<lambda>row. (row ! 0 - ?base) / smooth_z) band"
  have c0': "df_columns ref_model \<noteq> []" "hd (df_columns ref_model) = ''radius''"
    using c0 by (simp_all add: cols_def)
  have "index_of (df_columns new_model) ''radius'' = Some (N 0)"
    using N c0 by (cases cols) auto
  then have nr: "df_column new_model ''radius'' = Inr (map (\<lambda>row. row ! N 0) (df_rows new_model))"
    by (simp add: df_column_def)
  have g: "getitem (map (\<lambda>row. row ! N 0) (df_rows new_model)) 0 = Inr radius_0"
    using getitem_edge(1) [of "map (\<lambda>row. row ! N 0) (df_rows new_model)"] nne
    by (simp add: hd_map radius_0_def)
  have w1: "df_where_radius (\<lambda>r. r < ?base) ref_model = Inr (ref_model\<lparr>df_rows := below\<rparr>)"
    using df_where_radius_first [OF c0'] by (simp add: below_def R_def)
  have w2: "df_where_radius (\<lambda>r. ?base \<le> r \<and> r < radius_0) ref_model
              = Inr (ref_model\<lparr>df_rows := band\<rparr>)"
    using df_where_radius_first [OF c0'] by (simp add: band_def R_def)
  have sr: "df_column (ref_model\<lparr>df_rows := band\<rparr>) ''radius'' = Inr (map (\<lambda>row. row ! 0) band)"
    using df_column_radius_first [of "ref_model\<lparr>df_rows := band\<rparr>"] c0' by simp
  have sh: "\<forall>row\<in>set band. length row = length (df_columns ref_model)"
    using Rsh by (simp add: band_def cols_def)
  have len: "length ?fr = length band" by simp
  have edge: "((0::int) = 0 \<and> hd (df_rows new_model) = hd (df_rows new_model)) \<or>
              ((0::int) = - 1 \<and> hd (df_rows new_model) = last (df_rows new_model))" by simp
  from smooth_columns_result [of ref_model new_model N 0 "hd (df_rows new_model)" band ?fr radius_0,
      OF c0' dist [unfolded cols_def] Rne [unfolded R_def] srt [unfolded R_def]
        N [unfolded cols_def] nne edge sh len]
  obtain rws where rws: "smooth_columns ref_model new_model 0 radius_0 ?fr band = Inr rws"
      "length rws = length band"
      "\<forall>k<length band. rws ! k ! 0 = band ! k ! 0 \<and>
              (\<forall>j. 1 \<le> j \<and> j < length cols \<longrightarrow>
                 rws ! k ! j = band ! k ! j
                   + (hd (df_rows new_model) ! N j
                      - interp_points radius_0 (zip (map (\<lambda>row. row ! 0) R) (map (\<lambda>row. row ! j) R)))
                     * ?fr ! k)"
    unfolding cols_def R_def by blast
  let ?out = "ref_model\<lparr>df_rows := below @ rws\<rparr>"
  have run: "smooth_to_ref_model_below ref_model new_model = Inr ?out"
    by (simp add: smooth_to_ref_model_below_def nr g w1 w2 sr rws(1) Let_def comp_def)
  have 1: "df_columns ?out = cols" by (simp add: cols_def)
  have 2: "length (df_rows ?out) = length below + length band" using rws(2) by simp
  have 3: "\<forall>k<length below. df_rows ?out ! k = below ! k" by (simp add: nth_append)
  have 4: "\<forall>k<length band.
              df_rows ?out ! (length below + k) ! 0 = band ! k ! 0 \<and>
              (\<forall>j. 1 \<le> j \<and> j < length cols \<longrightarrow>
                 df_rows ?out ! (length below + k) ! j =
                   band ! k ! j
                   + (band ! k ! 0 - ?base) / smooth_z
                     * (hd (df_rows new_model) ! N j
                        - interp_points radius_0
                            (zip (map (\<lambda>row. row ! 0) R) (map (\<lambda>row. row ! j) R))))"
  proof (intro allI impI)
    fix k assume k: "k < length band"
    have f: "?fr ! k = (band ! k ! 0 - ?base) / smooth_z" using k by simp
    have o: "df_rows ?out ! (length below + k) = rws ! k" by simp
    show "df_rows ?out ! (length below + k) ! 0 = band ! k ! 0 \<and>
              (\<forall>j. 1 \<le> j \<and> j < length cols \<longrightarrow>
                 df_rows ?out ! (length below + k) ! j =
                   band ! k ! j
                   + (band ! k ! 0 - ?base) / smooth_z
                     * (hd (df_rows new_model) ! N j
                        - interp_points radius_0
                            (zip (map (\<lambda>row. row ! 0) R) (map (\<lambda>row. row ! j) R))))"
      unfolding o using rws(3) [rule_format, OF k] f by (simp add: mult.commute)
  qed
  from run 1 2 3 4 show ?thesis by blast
qed

lemma smooth_to_ref_model_above_result:
  fixes ref_model new_model :: dataframe and N :: "nat \<Rightarrow> nat"
  defines "cols \<equiv> df_columns ref_model"
  defines "R \<equiv> df_rows ref_model"
  defines "radius_N \<equiv> last (df_rows new_model) ! N 0"
  defines "band \<equiv> filter (\<lambda>row. radius_N < row ! 0 \<and> row ! 0 \<le> radius_N + smooth_z) R"
  defines "upper \<equiv> filter (\<lambda>row. radius_N + smooth_z < row ! 0) R"
  assumes c0: "cols \<noteq> []" "hd cols = ''radius''" and dist: "distinct cols"
    and Rne: "R \<noteq> []" and srt: "sorted (map (\<lambda>row. row ! 0) R)"
    and Rsh: "\<forall>row\<in>set R. length row = length cols"
    and N: "\<forall>j<length cols. index_of (df_columns new_model) (cols ! j) = Some (N j)"
    and nne: "df_rows new_model \<noteq> []"
  shows "\<exists>out. smooth_to_ref_model_above ref_model new_model = Inr out \<and>
           df_columns out = cols \<and>
           length (df_rows out) = length band + length upper \<and>
           (\<forall>k<length upper. df_rows out ! (length band + k) = upper ! k) \<and>
           (\<forall>k<length band.
              df_rows out ! k ! 0 = band ! k ! 0 \<and>
              (\<forall>j. 1 \<le> j \<and> j < length cols \<longrightarrow>
                 df_rows out ! k ! j =
                   band ! k ! j
                   + (radius_N + smooth_z - band ! k ! 0) / smooth_z
                     * (last (df_rows new_model) ! N j
                        - interp_points radius_N
                            (zip (map (\<lambda>row. row ! 0) R) (map (\<lambda>row. row ! j) R)))))"
proof -
  let ?top = "radius_N + smooth_z"
  let ?fr = "map (\<lambda>row. (?top - row ! 0) / smooth_z) band"
  have c0': "df_columns ref_model \<noteq> []" "hd (df_columns ref_model) = ''radius''"
    using c0 by (simp_all add: cols_def)
  have "index_of (df_columns new_model) ''radius'' = Some (N 0)"
    using N c0 by (cases cols) auto
  then have nr: "df_column new_model ''radius'' = Inr (map (\<lambda>row. row ! N 0) (df_rows new_model))"
    by (simp add: df_column_def)
  have g: "getitem (map (\<lambda>row. row ! N 0) (df_rows new_model)) (- 1) = Inr radius_N"
    using getitem_edge(2) [of "map (\<lambda>row. row ! N 0) (df_rows new_model)"] nne
    by (simp add: last_map radius_N_def)
  have w1: "df_where_radius (\<lambda>r. ?top < r) ref_model = Inr (ref_model\<lparr>df_rows := upper\<rparr>)"
    using df_where_radius_first [OF c0'] by (simp add: upper_def R_def)
  have w2: "df_where_radius (\<lambda>r. radius_N < r \<and> r \<le> ?top) ref_model
              = Inr (ref_model\<lparr>df_rows := band\<rparr>)"
    using df_where_radius_first [OF c0'] by (simp add: band_def R_def)
  have sr: "df_column (ref_model\<lparr>df_rows := band\<rparr>) ''radius'' = Inr (map (\<lambda>row. row ! 0) band)"
    using df_column_radius_first [of "ref_model\<lparr>df_rows := band\<rparr>"] c0' by simp
  have sh: "\<forall>row\<in>set band. length row = length (df_columns ref_model)"
    using Rsh by (simp add: band_def cols_def)
  have len: "length ?fr = length band" by simp
  have edge: "((- 1::int) = 0 \<and> last (df_rows new_model) = hd (df_rows new_model)) \<or>
              ((- 1::int) = - 1 \<and> last (df_rows new_model) = last (df_rows new_model))" by simp
  from smooth_columns_result [of ref_model new_model N "- 1" "last (df_rows new_model)" band ?fr radius_N,
      OF c0' dist [unfolded cols_def] Rne [unfolded R_def] srt [unfolded R_def]
        N [unfolded cols_def] nne edge sh len]
  obtain rws where rws: "smooth_columns ref_model new_model (- 1) radius_N ?fr band = Inr rws"
      "length rws = length band"
      "\<forall>k<length band. rws ! k ! 0 = band ! k ! 0 \<and>
              (\<forall>j. 1 \<le> j \<and> j < length cols \<longrightarrow>
                 rws ! k ! j = band ! k ! j
                   + (last (df_rows new_model) ! N j
                      - interp_points radius_N (zip (map (\<lambda>row. row ! 0) R) (map (\<lambda>row. row ! j) R)))
                     * ?fr ! k)"
    unfolding cols_def R_def by blast
  let ?out = "ref_model\<lparr>df_rows := rws @ upper\<rparr>"
  have run: "smooth_to_ref_model_above ref_model new_model = Inr ?out"
    by (simp add: smooth_to_ref_model_above_def nr g w1 w2 sr rws(1) Let_def comp_def)
  have 1: "df_columns ?out = cols" by (simp add: cols_def)
  have 2: "length (df_rows ?out) = length band + length upper" using rws(2) by simp
  have 3: "\<forall>k<length upper. df_rows ?out ! (length band + k) = upper ! k"
    using rws(2) nth_append_length_plus [of rws upper] by simp
  have 4: "\<forall>k<length band.
              df_rows ?out ! k ! 0 = band ! k ! 0 \<and>
              (\<forall>j. 1 \<le> j \<and> j < length cols \<longrightarrow>
                 df_rows ?out ! k ! j =
                   band ! k ! j
                   + (?top - band ! k ! 0) / smooth_z
                     * (last (df_rows new_model) ! N j
                        - interp_points radius_N
                            (zip (map (\<lambda>row. row ! 0) R) (map (\<lambda>row. row ! j) R))))"
  proof (intro allI impI)
    fix k assume k: "k < length band"
    have f: "?fr ! k = (?top - band ! k ! 0) / smooth_z" using k by simp
    have o: "df_rows ?out ! k = rws ! k" using k rws(2) by (simp add: nth_append)
    show "df_rows ?out ! k ! 0 = band ! k ! 0 \<and>
              (\<forall>j. 1 \<le> j \<and> j < length cols \<longrightarrow>
                 df_rows ?out ! k ! j =
                   band ! k ! j
                   + (?top - band ! k ! 0) / smooth_z
                     * (last (df_rows new_model) ! N j
                        - interp_points radius_N
                            (zip (map (\<lambda>row. row ! 0) R) (map (\<lambda>row. row ! j) R))))"
      unfolding o using rws(3) [rule_format, OF k] f by (simp add: mult.commute)
  qed
  from run 1 2 3 4 show ?thesis by blast
qed

section \<open>Interpolation in the reference model\<close>

text \<open>For radii that do not decrease, \<open>interp_points\<close> is what \<open>np.interp\<close> computes: left of
  the first radius the first value, from the last radius on the last value, and for
  \<open>xp[j] \<le> x < xp[j+1]\<close> the value \<open>fp[j]\<close> at \<open>x = xp[j]\<close> and the line through the points
  \<open>j\<close> and \<open>j+1\<close> otherwise. The reference cards repeat a radius at every discontinuity: there
  the row that comes last is read.\<close>

lemma interp_points_left:
  assumes "xp \<noteq> []" "length xp = length fp" "x < hd xp"
  shows "interp_points x (zip xp fp) = hd fp"
  using assms
  by (cases xp; cases fp; cases "tl xp"; cases "tl fp") auto

lemma interp_points_right:
  assumes "sorted xp" "xp \<noteq> []" "length xp = length fp" "last xp \<le> x"
  shows "interp_points x (zip xp fp) = last fp"
  using assms
proof (induction xp arbitrary: fp)
  case Nil then show ?case by simp
next
  case (Cons a xs)
  then obtain b fs where fp: "fp = b # fs" "length xs = length fs" by (cases fp) auto
  show ?case
  proof (cases xs)
    case Nil then show ?thesis using fp by simp
  next
    case (Cons a1 xs')
    then obtain b1 fs' where fs: "fs = b1 # fs'" using fp by (cases fs) auto
    have "a1 \<le> last xs" using Cons.prems(1) Cons by (cases "xs' = []") auto
    then have le: "a \<le> a1" "a1 \<le> x" using Cons.prems(1,4) Cons by auto
    have "interp_points x (zip xs fs) = last fs"
      using Cons.IH [of fs] Cons.prems fp Cons by auto
    then show ?thesis using le fp fs Cons by simp
  qed
qed

lemma interp_points_bracket:
  assumes "sorted xp" "length xp = length fp" "Suc j < length xp" "xp ! j \<le> x" "x < xp ! Suc j"
  shows "interp_points x (zip xp fp) =
           (if x = xp ! j then fp ! j
            else (fp ! Suc j - fp ! j) / (xp ! Suc j - xp ! j) * (x - xp ! j) + fp ! j)"
  using assms
proof (induction j arbitrary: xp fp)
  case 0
  then show ?case by (cases xp; cases fp; cases "tl xp"; cases "tl fp") auto
next
  case (Suc j)
  then obtain a a1 xs where xp: "xp = a # a1 # xs" by (cases xp; cases "tl xp") auto
  then obtain b b1 fs where fp: "fp = b # b1 # fs" using Suc.prems(2) by (cases fp; cases "tl fp") auto
  have s: "sorted (a1 # xs)" using Suc.prems(1) xp by simp
  have "a1 \<le> (a1 # xs) ! j" using s Suc.prems(3) xp sorted_nth_mono [of "a1 # xs" 0 j] by simp
  then have le: "a \<le> a1" "a1 \<le> x" using Suc.prems(1,4) xp by auto
  have "interp_points x (zip (a1 # xs) (b1 # fs)) =
           (if x = (a1 # xs) ! j then (b1 # fs) ! j
            else ((b1 # fs) ! Suc j - (b1 # fs) ! j) / ((a1 # xs) ! Suc j - (a1 # xs) ! j)
                 * (x - (a1 # xs) ! j) + (b1 # fs) ! j)"
    using Suc.IH [of "a1 # xs" "b1 # fs"] s Suc.prems xp fp by simp
  then show ?case using le xp fp by simp
qed

lemma np_interp_repeated_radius:
  "np_interp 100000 [0, 50000, 100000, 100000, 200000] [1, 2, 3, 4, 5] = Inr 4"
  by (simp add: np_interp_def)

lemma smooth_to_ref_model_below_repeated_radius:
  "smooth_to_ref_model_below
      \<lparr>df_columns = [''radius'', ''vsv''],
       df_rows = [[0, 1], [50000, 2], [100000, 3], [100000, 4], [200000, 5]]\<rparr>
      \<lparr>df_columns = [''radius'', ''vsv''], df_rows = [[100000, 10], [150000, 11]]\<rparr>
    = Inr \<lparr>df_columns = [''radius'', ''vsv''], df_rows = [[0, 1], [50000, 5]]\<rparr>"
  by code_simp

section \<open>Claim about the splice into the reference model\<close>

text \<open>
  Claim C9, as the code has it. Let the reference model have the radius as its first
  column, distinct column names, at least one row and radii that do not decrease from one
  row to the next, and let the new model have a row and every column of the reference
  model. Below the new model the band is
  \<open>radius_0 - 100 km \<le> radius < radius_0\<close>, with \<open>radius_0\<close> the first radius of the new
  model and \<open>fraction = (radius - (radius_0 - 100 km)) / 100 km\<close>; above it the band is
  \<open>radius_N < radius \<le> radius_N + 100 km\<close>, with \<open>radius_N\<close> the last radius of the new
  model and \<open>fraction = (radius_N + 100 km - radius) / 100 km\<close>. For every reference row in
  a band the radius is kept and every other column becomes
  \<open>reference value of the row + fraction * (new model's edge value - reference value
  interpolated at the edge radius)\<close>, the interpolation being that of \<open>np.interp\<close> (at a
  radius that the reference model repeats, the value of the last such row): the reference
  profile is shifted by the scaled mismatch at the edge, it is not blended with the edge
  value. The reference rows beyond
  the band, away from the new model, are returned unchanged, and the rows inside the new
  model's range are dropped.
\<close>

theorem splice_adds_scaled_edge_mismatch:
  fixes ref_model new_model :: dataframe and N :: "nat \<Rightarrow> nat"
  defines "cols \<equiv> df_columns ref_model"
  defines "R \<equiv> df_rows ref_model"
  defines "radius_0 \<equiv> hd (df_rows new_model) ! N 0"
  defines "radius_N \<equiv> last (df_rows new_model) ! N 0"
  defines "below \<equiv> filter (\<lambda>row. row ! 0 < radius_0 - smooth_z) R"
  defines "band_below \<equiv> filter (\<lambda>row. radius_0 - smooth_z \<le> row ! 0 \<and> row ! 0 < radius_0) R"
  defines "band_above \<equiv> filter (\<lambda>row. radius_N < row ! 0 \<and> row ! 0 \<le> radius_N + smooth_z) R"
  defines "upper \<equiv> filter (\<lambda>row. radius_N + smooth_z < row ! 0) R"
  assumes c0: "cols \<noteq> []" "hd cols = ''radius''" and dist: "distinct cols"
    and Rne: "R \<noteq> []" and srt: "sorted (map (\<lambda>row. row ! 0) R)"
    and Rsh: "\<forall>row\<in>set R. length row = length cols"
    and N: "\<forall>j<length cols. index_of (df_columns new_model) (cols ! j) = Some (N j)"
    and nne: "df_rows new_model \<noteq> []"
  shows "(\<exists>out. smooth_to_ref_model_below ref_model new_model = Inr out \<and>
           df_columns out = cols \<and>
           length (df_rows out) = length below + length band_below \<and>
           (\<forall>k<length below. df_rows out ! k = below ! k) \<and>
           (\<forall>k<length band_below.
              df_rows out ! (length below + k) ! 0 = band_below ! k ! 0 \<and>
              (\<forall>j. 1 \<le> j \<and> j < length cols \<longrightarrow>
                 df_rows out ! (length below + k) ! j =
                   band_below ! k ! j
                   + (band_below ! k ! 0 - (radius_0 - smooth_z)) / smooth_z
                     * (hd (df_rows new_model) ! N j
                        - interp_points radius_0
                            (zip (map (\<lambda>row. row ! 0) R) (map (\<lambda>row. row ! j) R)))))) \<and>
         (\<exists>out. smooth_to_ref_model_above ref_model new_model = Inr out \<and>
           df_columns out = cols \<and>
           length (df_rows out) = length band_above + length upper \<and>
           (\<forall>k<length upper. df_rows out ! (length band_above + k) = upper ! k) \<and>
           (\<forall>k<length band_above.
              df_rows out ! k ! 0 = band_above ! k ! 0 \<and>
              (\<forall>j. 1 \<le> j \<and> j < length cols \<longrightarrow>
                 df_rows out ! k ! j =
                   band_above ! k ! j
                   + (radius_N + smooth_z - band_above ! k ! 0) / smooth_z
                     * (last (df_rows new_model) ! N j
                        - interp_points radius_N
                            (zip (map (\<lambda>row. row ! 0) R) (map (\<lambda>row. row ! j) R))))))"
  unfolding below_def band_below_def band_above_def upper_def radius_0_def radius_N_def
  using smooth_to_ref_model_below_result [of ref_model new_model N]
    smooth_to_ref_model_above_result [of ref_model new_model N]
    c0 dist Rne srt Rsh N nne
  unfolding cols_def R_def by blast

theorem splice_adds_scaled_edge_mismatch_witness:
  "(\<exists>out. smooth_to_ref_model_below
      \<lparr>df_columns = [''radius'', ''vsv''], df_rows = [[0, 1], [50000, 2], [200000, 5], [400000, 6]]\<rparr>
      \<lparr>df_columns = [''radius'', ''vsv''], df_rows = [[100000, 10], [150000, 11]]\<rparr> = Inr out \<and>
      df_rows out ! 1 ! 1 = 2 + 1 / 2 * (10 - 3)) \<and>
   (\<exists>out. smooth_to_ref_model_above
      \<lparr>df_columns = [''radius'', ''vsv''], df_rows = [[0, 1], [50000, 2], [200000, 5], [400000, 6]]\<rparr>
      \<lparr>df_columns = [''radius'', ''vsv''], df_rows = [[100000, 10], [150000, 11]]\<rparr> = Inr out \<and>
      df_rows out ! 0 ! 1 = 5 + 1 / 2 * (11 - 4) \<and> df_rows out ! 1 = [400000, 6])"
proof -
  let ?ref = "\<lparr>df_columns = [''radius'', ''vsv''],
                df_rows = [[0, 1], [50000, 2], [200000, 5], [400000, 6::real]]\<rparr>"
  let ?new = "\<lparr>df_columns = [''radius'', ''vsv''], df_rows = [[100000, 10], [150000, 11::real]]\<rparr>"
  have h: "df_columns ?ref \<noteq> []" "hd (df_columns ?ref) = ''radius''" "distinct (df_columns ?ref)"
      "df_rows ?ref \<noteq> []" "sorted (map (\<lambda>row. row ! 0) (df_rows ?ref))"
      "\<forall>row\<in>set (df_rows ?ref). length row = length (df_columns ?ref)"
      "\<forall>j<length (df_columns ?ref). index_of (df_columns ?new) (df_columns ?ref ! j) = Some ((\<lambda>j. j) j)"
      "df_rows ?new \<noteq> []"
    by (simp_all add: less_Suc_eq numeral_2_eq_2)
  note th = splice_adds_scaled_edge_mismatch [of ?ref ?new "\<lambda>j. j", OF h]
  from th obtain o1 where o1: "smooth_to_ref_model_below ?ref ?new = Inr o1"
      "df_rows o1 ! (0 + 1) ! 1 = 2 + 1 / 2 * (10 - 3)"
    by (simp add: smooth_z_def) fastforce
  from th obtain o2 where o2: "smooth_to_ref_model_above ?ref ?new = Inr o2"
      "df_rows o2 ! 0 ! 1 = 5 + 1 / 2 * (11 - 4)" "df_rows o2 ! (1 + 0) = [400000, 6]"
    by (simp add: smooth_z_def) fastforce
  from o1 o2 show ?thesis by simp
qed

theorem splice_is_not_a_convex_blend:
  "smooth_to_ref_model_below
      \<lparr>df_columns = [''radius'', ''vsv''], df_rows = [[0, 1], [50000, 2], [200000, 5], [400000, 6]]\<rparr>
      \<lparr>df_columns = [''radius'', ''vsv''], df_rows = [[100000, 10], [150000, 11]]\<rparr>
    = Inr \<lparr>df_columns = [''radius'', ''vsv''], df_rows = [[0, 1], [50000, 11 / 2]]\<rparr> \<and>
   (11 / 2 :: real) \<noteq> (50000 - (100000 - smooth_z)) / smooth_z * 10
                          + (1 - (50000 - (100000 - smooth_z)) / smooth_z) * 2"
proof
  show "smooth_to_ref_model_below
      \<lparr>df_columns = [''radius'', ''vsv''], df_rows = [[0, 1], [50000, 2], [200000, 5], [400000, 6]]\<rparr>
      \<lparr>df_columns = [''radius'', ''vsv''], df_rows = [[100000, 10], [150000, 11]]\<rparr>
    = Inr \<lparr>df_columns = [''radius'', ''vsv''], df_rows = [[0, 1], [50000, 11 / 2]]\<rparr>"
    by code_simp
  show "(11 / 2 :: real) \<noteq> (50000 - (100000 - smooth_z)) / smooth_z * 10
                          + (1 - (50000 - (100000 - smooth_z)) / smooth_z) * 2"
    by (simp add: smooth_z_def)
qed

end
